theory Spec2Isabelle
  imports Complex_Main
begin

section \<open>Values, labels and cells\<close>

text \<open>
  The module \<^verbatim>\<open>btowntickets/utils.py\<close> works on pandas tables. A table cell is either
  missing (\<open>None\<close>: pandas' \<^verbatim>\<open>NA\<close>, \<^verbatim>\<open>NaN\<close> in an object column, \<^verbatim>\<open>NaT\<close>) or holds a scalar.
  A 64-bit float is kept as the rational it approximates: \<open>Finite q\<close> stands for the double
  nearest to \<open>q\<close>, rounding is not part of the model; the two infinities and not-a-number
  are values of their own.
\<close>

datatype float64 = Finite rat | PosInf | NegInf | NaN

datatype scalar =
    IntV int
  | FloatV float64
  | StrV string
  | BoolV bool
  | TimestampV int

type_synonym cell = "scalar option"

text \<open>Axis labels: column names are strings, positions and default names are integers.\<close>

datatype label = LStr string | LInt int

text \<open>
  An exception is recorded by the builtin class it is an instance of, not by its message.
  \<open>ValueError\<close> therefore also stands for the subclasses of \<^verbatim>\<open>ValueError\<close> that the libraries
  raise: pandas' \<^verbatim>\<open>EmptyDataError\<close> and \<^verbatim>\<open>ParserError\<close>, Python's \<^verbatim>\<open>UnicodeDecodeError\<close>,
  pyarrow's \<^verbatim>\<open>ArrowInvalid\<close>.
\<close>

datatype error =
    FileNotFoundError
  | ValueError
  | TypeError
  | KeyError label
  | OverflowError

text \<open>
  A frame has a row index and an ordered list of labelled columns, and each of the two
  axes may carry a name (\<^verbatim>\<open>df.index.name\<close>, \<^verbatim>\<open>df.columns.name\<close>). A series has an index with
  its name, its values and an optional name of its own. Both are polymorphic in what a
  cell holds, so that the boolean mask \<^verbatim>\<open>isna()\<close> returns and the integer series \<^verbatim>\<open>sum()\<close>
  returns keep their types.
\<close>

record 'a frame =
  index :: "label list"
  index_name :: "label option"
  columns :: "(label \<times> 'a list) list"
  columns_name :: "label option"

record 'a series =
  sindex :: "label list"
  sindex_name :: "label option"
  svalues :: "'a list"
  sname :: "label option"

type_synonym dataframe = "cell frame"

definition wf_frame :: "('a, 'b) frame_scheme \<Rightarrow> bool" where
  "wf_frame df = list_all (\<lambda>c. length (snd c) = length (index df)) (columns df)"

definition range_index :: "nat \<Rightarrow> label list" where
  "range_index n = map (\<lambda>i. LInt (int i)) [0..<n]"

fun cell_of_label :: "label \<Rightarrow> cell" where
  "cell_of_label (LStr s) = Some (StrV s)"
| "cell_of_label (LInt i) = Some (IntV i)"

section \<open>The pandas operations that profile_nulls calls\<close>

text \<open>\<^verbatim>\<open>len(df)\<close>: the number of rows.\<close>

definition len :: "('a, 'b) frame_scheme \<Rightarrow> nat" where
  "len df = length (index df)"

text \<open>
  \<^verbatim>\<open>df.isna()\<close>: a mask of the same shape and the same axes. A missing cell and a float
  not-a-number are null; every other value, the infinities included, is not.
\<close>

fun isna_cell :: "cell \<Rightarrow> bool" where
  "isna_cell None = True"
| "isna_cell (Some (FloatV NaN)) = True"
| "isna_cell (Some v) = False"

definition isna :: "dataframe \<Rightarrow> bool frame" where
  "isna df =
     \<lparr>index = index df, index_name = index_name df,
      columns = map (\<lambda>(l, cs). (l, map isna_cell cs)) (columns df),
      columns_name = columns_name df\<rparr>"

text \<open>
  \<^verbatim>\<open>.sum(axis=0)\<close> on a boolean frame: one integer per column, the number of \<open>True\<close>
  cells. The index of the result is the column axis of the frame, with its name; the
  series itself has no name. The int64 sum cannot wrap, a column has fewer than \<open>2^63\<close>
  cells.
\<close>

definition sum_axis0 :: "bool frame \<Rightarrow> int series" where
  "sum_axis0 df =
     \<lparr>sindex = map fst (columns df),
      sindex_name = columns_name df,
      svalues = map (\<lambda>(l, bs). sum_list (map (\<lambda>b. if b then 1 else 0) bs)) (columns df),
      sname = None\<rparr>"

text \<open>
  \<^verbatim>\<open>.to_frame()\<close>: a one-column frame on the index of the series; an unnamed series gives
  the column label \<open>0\<close>. The column axis of the new frame has no name.
\<close>

definition to_frame :: "int series \<Rightarrow> dataframe" where
  "to_frame s =
     \<lparr>index = sindex s, index_name = sindex_name s,
      columns = [(case sname s of None \<Rightarrow> LInt 0 | Some n \<Rightarrow> n,
                  map (\<lambda>i. Some (IntV i)) (svalues s))],
      columns_name = None\<rparr>"

text \<open>
  \<^verbatim>\<open>.reset_index()\<close>: the old index becomes the first column. The column is named after
  the index; an index without a name gives \<^verbatim>\<open>index\<close> (or \<^verbatim>\<open>level_0\<close> when a column \<^verbatim>\<open>index\<close>
  exists already). Inserting a label that is a column already raises \<^verbatim>\<open>ValueError\<close>. The
  new index is \<open>0, 1, ...\<close> and has no name. A new frame is returned.
\<close>

definition reset_index :: "dataframe \<Rightarrow> error + dataframe" where
  "reset_index df =
     (let names = map fst (columns df);
          new = (case index_name df of
                   Some n \<Rightarrow> n
                 | None \<Rightarrow> if LStr ''index'' \<in> set names then LStr ''level_0'' else LStr ''index'')
      in if new \<in> set names then Inl ValueError
         else Inr \<lparr>index = range_index (length (index df)), index_name = None,
                   columns = (new, map cell_of_label (index df)) # columns df,
                   columns_name = columns_name df\<rparr>)"

text \<open>
  \<^verbatim>\<open>.rename(columns={...})\<close>: every column label that is a key of the dictionary is
  replaced, the others stay. A new frame is returned.
\<close>

definition rename :: "dataframe \<Rightarrow> (label \<times> label) list \<Rightarrow> dataframe" where
  "rename df m =
     df\<lparr>columns := map (\<lambda>(l, cs). (case map_of m l of None \<Rightarrow> l | Some l' \<Rightarrow> l', cs)) (columns df)\<rparr>"

text \<open>
  \<^verbatim>\<open>df[key]\<close>: \<^verbatim>\<open>KeyError\<close> when no column has that label; the column as a series named by
  the key when one column has it; the frame of all columns that have it when several do.
\<close>

datatype selection = Column "cell series" | SubFrame dataframe

definition getitem :: "dataframe \<Rightarrow> label \<Rightarrow> error + selection" where
  "getitem df key =
     (case filter (\<lambda>c. fst c = key) (columns df) of
        [] \<Rightarrow> Inl (KeyError key)
      | [c] \<Rightarrow> Inr (Column \<lparr>sindex = index df, sindex_name = index_name df,
                            svalues = snd c, sname = Some key\<rparr>)
      | cs \<Rightarrow> Inr (SubFrame (df\<lparr>columns := cs\<rparr>)))"

text \<open>
  \<^verbatim>\<open>x / n\<close> for an integer \<open>n\<close>: true division, cell by cell, into floats. Dividing by
  zero does not raise: \<open>0 / 0\<close> is not-a-number and \<open>x / 0\<close> an infinity of the sign of
  \<open>x\<close>. Text and timestamps cannot be divided: \<^verbatim>\<open>TypeError\<close>.
\<close>

fun fdiv :: "float64 \<Rightarrow> int \<Rightarrow> float64" where
  "fdiv (Finite q) n =
     (if n \<noteq> 0 then Finite (q / of_int n)
      else if q > 0 then PosInf else if q < 0 then NegInf else NaN)"
| "fdiv PosInf n = (if n < 0 then NegInf else PosInf)"
| "fdiv NegInf n = (if n < 0 then PosInf else NegInf)"
| "fdiv NaN n = NaN"

fun truediv_cell :: "cell \<Rightarrow> int \<Rightarrow> error + cell" where
  "truediv_cell None n = Inr None"
| "truediv_cell (Some (IntV i)) n = Inr (Some (FloatV (fdiv (Finite (of_int i)) n)))"
| "truediv_cell (Some (BoolV b)) n = Inr (Some (FloatV (fdiv (Finite (if b then 1 else 0)) n)))"
| "truediv_cell (Some (FloatV f)) n = Inr (Some (FloatV (fdiv f n)))"
| "truediv_cell (Some v) n = Inl TypeError"

fun sequence :: "('e + 'a) list \<Rightarrow> 'e + 'a list" where
  "sequence [] = Inr []"
| "sequence (x # xs) =
     (case x of
        Inl e \<Rightarrow> Inl e
      | Inr v \<Rightarrow> (case sequence xs of Inl e \<Rightarrow> Inl e | Inr vs \<Rightarrow> Inr (v # vs)))"

definition truediv_cells :: "cell list \<Rightarrow> int \<Rightarrow> error + cell list" where
  "truediv_cells cs n = sequence (map (\<lambda>c. truediv_cell c n) cs)"

definition truediv :: "selection \<Rightarrow> int \<Rightarrow> error + selection" where
  "truediv x n =
     (case x of
        Column s \<Rightarrow>
          (case truediv_cells (svalues s) n of
             Inl e \<Rightarrow> Inl e
           | Inr vs \<Rightarrow> Inr (Column (s\<lparr>svalues := vs\<rparr>)))
      | SubFrame f \<Rightarrow>
          (case sequence (map (\<lambda>(l, cs). case truediv_cells cs n of
                                           Inl e \<Rightarrow> Inl e | Inr vs \<Rightarrow> Inr (l, vs))
                              (columns f)) of
             Inl e \<Rightarrow> Inl e
           | Inr cols \<Rightarrow> Inr (SubFrame (f\<lparr>columns := cols\<rparr>))))"

text \<open>
  \<^verbatim>\<open>df[key] = x\<close>. A series is aligned with the frame's index first: with the same index
  its values are taken as they are; otherwise each row label is looked up in the series
  (a missing label gives a missing cell), which raises \<^verbatim>\<open>ValueError\<close> when the series'
  index has a duplicate. An existing column of that label is overwritten, else the column
  is appended. A frame of several columns cannot be assigned to one new label:
  \<^verbatim>\<open>ValueError\<close>; a frame of one column is assigned as that column; a frame assigned to
  an existing label must have as many columns as bear the label.
\<close>

definition align :: "label list \<Rightarrow> cell list \<Rightarrow> label list \<Rightarrow> error + cell list" where
  "align src vs idx =
     (if src = idx then Inr vs
      else if \<not> distinct src
      then Inl ValueError
      else Inr (map (\<lambda>l. case map_of (zip src vs) l of None \<Rightarrow> None | Some c \<Rightarrow> c) idx))"

definition set_column :: "dataframe \<Rightarrow> label \<Rightarrow> cell list \<Rightarrow> dataframe" where
  "set_column df key vs =
     (if key \<in> set (map fst (columns df))
      then df\<lparr>columns := map (\<lambda>(l, cs). (l, if l = key then vs else cs)) (columns df)\<rparr>
      else df\<lparr>columns := columns df @ [(key, vs)]\<rparr>)"

fun replace_columns :: "label \<Rightarrow> (label \<times> cell list) list \<Rightarrow> cell list list
    \<Rightarrow> (label \<times> cell list) list" where
  "replace_columns key [] vss = []"
| "replace_columns key ((l, cs) # cols) vss =
     (if l = key
      then (case vss of
              [] \<Rightarrow> (l, cs) # replace_columns key cols []
            | vs # rest \<Rightarrow> (l, vs) # replace_columns key cols rest)
      else (l, cs) # replace_columns key cols vss)"

definition setitem :: "dataframe \<Rightarrow> label \<Rightarrow> selection \<Rightarrow> error + dataframe" where
  "setitem df key x =
     (case x of
        Column s \<Rightarrow>
          (case align (sindex s) (svalues s) (index df) of
             Inl e \<Rightarrow> Inl e
           | Inr vs \<Rightarrow> Inr (set_column df key vs))
      | SubFrame f \<Rightarrow>
          if key \<in> set (map fst (columns df))
          then if length (filter (\<lambda>c. fst c = key) (columns df)) \<noteq> length (columns f)
               then Inl ValueError
               else (case sequence (map (\<lambda>c. align (index f) (snd c) (index df)) (columns f)) of
                       Inl e \<Rightarrow> Inl e
                     | Inr vss \<Rightarrow> Inr (df\<lparr>columns := replace_columns key (columns df) vss\<rparr>))
          else (case columns f of
                  [c] \<Rightarrow>
                    (case align (index f) (snd c) (index df) of
                       Inl e \<Rightarrow> Inl e
                     | Inr vs \<Rightarrow> Inr (set_column df key vs))
                | _ \<Rightarrow> Inl ValueError))"

section \<open>Objects\<close>

text \<open>
  Python passes frames by reference and \<^verbatim>\<open>df[key] = ...\<close> changes the frame it is applied
  to. The store maps a reference to the frame it denotes; \<open>fresh\<close> is the next unused
  reference.
\<close>

type_synonym ref = nat

record heap =
  frames :: "ref \<Rightarrow> dataframe option"
  fresh :: ref

definition heap_ok :: "heap \<Rightarrow> bool" where
  "heap_ok h = (\<forall>r. fresh h \<le> r \<longrightarrow> frames h r = None)"

definition alloc :: "dataframe \<Rightarrow> heap \<Rightarrow> ref \<times> heap" where
  "alloc v h = (fresh h, h\<lparr>frames := (frames h)(fresh h \<mapsto> v), fresh := Suc (fresh h)\<rparr>)"

definition deref :: "heap \<Rightarrow> ref \<Rightarrow> error + dataframe" where
  "deref h r = (case frames h r of None \<Rightarrow> Inl TypeError | Some v \<Rightarrow> Inr v)"

section \<open>profile_nulls\<close>

text \<open>
  \<^verbatim>\<open>
  def profile_nulls(df):
      null_profile = df.isna().sum(axis=0).to_frame()
          .reset_index()
          .rename(columns={"index": "Column", 0: "Null Count"})
      null_profile["Null Pct"] = null_profile["Null Count"] / len(df)
      return null_profile
  \<close>
  The method chain builds a new frame, bound to \<^verbatim>\<open>null_profile\<close>; the assignment then
  changes that object in place. The function returns the reference and the store.
\<close>

definition profile_nulls :: "ref \<Rightarrow> heap \<Rightarrow> (error + ref) \<times> heap" where
  "profile_nulls df h =
     (case deref h df of Inl e \<Rightarrow> (Inl e, h) | Inr T \<Rightarrow>
      (case reset_index (to_frame (sum_axis0 (isna T))) of Inl e \<Rightarrow> (Inl e, h) | Inr R \<Rightarrow>
       (let (null_profile, h1) =
              alloc (rename R [(LStr ''index'', LStr ''Column''), (LInt 0, LStr ''Null Count'')]) h
        in
        (case deref h1 null_profile of Inl e \<Rightarrow> (Inl e, h1) | Inr P \<Rightarrow>
         (case getitem P (LStr ''Null Count'') of Inl e \<Rightarrow> (Inl e, h1) | Inr counts \<Rightarrow>
          (case deref h1 df of Inl e \<Rightarrow> (Inl e, h1) | Inr T1 \<Rightarrow>
           (case truediv counts (int (len T1)) of Inl e \<Rightarrow> (Inl e, h1) | Inr pct \<Rightarrow>
            (case setitem P (LStr ''Null Pct'') pct of Inl e \<Rightarrow> (Inl e, h1) | Inr P' \<Rightarrow>
              (Inr null_profile, h1\<lparr>frames := (frames h1)(null_profile \<mapsto> P')\<rparr>)))))))))"

section \<open>Loaded tables, files and the file system\<close>

text \<open>
  A table that a loader returns records, besides the frame, the dtype of each of its columns
  (\<^verbatim>\<open>df.dtypes\<close>), in the order of the columns. The dtypes named are the ones this module asks
  for or can get back: the nullable \<^verbatim>\<open>Float64\<close> and \<^verbatim>\<open>Int64\<close>, \<^verbatim>\<open>object\<close> (what the dtype \<^verbatim>\<open>str\<close>
  gives, and what a column of texts has), \<^verbatim>\<open>category\<close>, \<^verbatim>\<open>datetime64\<close>; any other dtype, which
  only a Parquet file can bring, is kept by its name.
\<close>

datatype dtype =
    Float64Dtype
  | Int64Dtype
  | ObjectDtype
  | CategoricalDtype
  | Datetime64Dtype
  | NumpyDtype string

record 'a typed_frame = "'a frame" +
  col_dtypes :: "dtype list"

type_synonym table = "cell typed_frame"

text \<open>
  A delimited-text file is represented by what the tokenizer of \<^verbatim>\<open>read_csv\<close> yields: the
  fields of the header line and the fields of each record (blank lines are dropped by the
  tokenizer). A Parquet file is represented by the table, with its dtypes and axis names,
  that the \<^verbatim>\<open>pyarrow\<close> engine decodes from it; the binary layout and the decoding belong to
  the library.
\<close>

type_synonym path = string

datatype disk_file = TextFile "string list" "string list list" | ParquetFile table

text \<open>
  The world outside the program: the files, and the record of every read of a path, in
  the order of the reads. The record is what makes the number of reads observable.
\<close>

record world =
  files :: "path \<Rightarrow> disk_file option"
  accesses :: "path list"

definition access :: "path \<Rightarrow> world \<Rightarrow> world" where
  "access p w = w\<lparr>accesses := accesses w @ [p]\<rparr>"

section \<open>What is taken from pandas as it is\<close>

text \<open>The values of the \<^verbatim>\<open>dtype\<close> dictionary: \<^verbatim>\<open>"Float64"\<close>, \<^verbatim>\<open>"Int64"\<close>, \<^verbatim>\<open>str\<close>, \<^verbatim>\<open>"category"\<close>.\<close>

datatype dtype_arg = Float64 | Int64 | Str | Category

text \<open>
  pandas converts a column as a whole, and how it does so is not code of this module. The
  conversions are parameters, and every property below is proved for all of them:
  \<^item> \<open>is_number\<close>: the texts that pandas' number parser accepts;
  \<^item> \<open>to_float64\<close>, \<open>to_int64\<close>: the conversion of a column of fields to the nullable dtype
    (\<^verbatim>\<open>to_numeric(..., errors="raise")\<close> followed by the cast), which may raise;
  \<^item> \<open>to_categorical\<close>: the values of a column read with dtype \<^verbatim>\<open>category\<close>;
  \<^item> \<open>to_datetime\<close>: the date conversion of a column named in \<^verbatim>\<open>parse_dates\<close>, given the dtype
    requested for the column, if any. It returns the dtype the column ends with,
    \<^verbatim>\<open>datetime64\<close> when the column was parsed and \<^verbatim>\<open>object\<close> when it was left as it was;
  \<^item> \<open>infer_column\<close>: type inference, for a column with neither a dtype nor a date
    conversion;
  \<^item> \<open>read_ragged\<close>: what \<^verbatim>\<open>read_csv\<close> returns, given \<^verbatim>\<open>parse_dates\<close>, \<^verbatim>\<open>dtype\<close>, \<^verbatim>\<open>usecols\<close>, the
    header and the records, when some record has not as many fields as the header. pandas
    then pads short records, and with \<^verbatim>\<open>usecols\<close> it may take the leading fields of long
    records as a row index and read every column from a shifted position.
  A field is passed to a conversion as \<open>None\<close> when it is a missing-value marker.
\<close>

record pandas =
  is_number :: "string \<Rightarrow> bool"
  to_float64 :: "string option list \<Rightarrow> error + cell list"
  to_int64 :: "string option list \<Rightarrow> error + cell list"
  to_categorical :: "string option list \<Rightarrow> cell list"
  to_datetime :: "dtype_arg option \<Rightarrow> string option list \<Rightarrow> dtype \<times> cell list"
  infer_column :: "string option list \<Rightarrow> dtype \<times> cell list"
  read_ragged :: "string list \<Rightarrow> (string \<times> dtype_arg) list \<Rightarrow> string list \<Rightarrow> string list
                    \<Rightarrow> string list list \<Rightarrow> error + table"

section \<open>read_csv and read_parquet\<close>

text \<open>The fields \<^verbatim>\<open>read_csv\<close> reads as missing by default; the empty field is the first.\<close>

definition na_values :: "string list" where
  "na_values =
     ['''', ''#N/A'', ''#N/A N/A'', ''#NA'', ''-1.#IND'', ''-1.#QNAN'', ''-NaN'', ''-nan'',
      ''1.#IND'', ''1.#QNAN'', ''<NA>'', ''N/A'', ''NA'', ''NULL'', ''NaN'', ''None'',
      ''n/a'', ''nan'', ''null'']"

definition missing :: "string \<Rightarrow> string option" where
  "missing s = (if s \<in> set na_values then None else Some s)"

text \<open>
  Two facts about every conversion are part of the model and not of the parameters: the
  converted column has one cell per field, and a field read as missing is a missing cell
  (\<^verbatim>\<open>NA\<close>, \<^verbatim>\<open>NaN\<close> or \<^verbatim>\<open>NaT\<close>) of the converted column. A field that is no marker may become a missing
  cell as well; that is the conversion's choice.
\<close>

definition keep_missing :: "string option list \<Rightarrow> cell list \<Rightarrow> cell list" where
  "keep_missing texts cs =
     map (\<lambda>i. case texts ! i of
                 None \<Rightarrow> None
               | Some s \<Rightarrow> if i < length cs then cs ! i else None)
       [0..<length texts]"

text \<open>
  A column of a nullable numeric dtype. The conversion raises when a field is neither a
  marker nor a number; which exception it raises, there and on numbers it cannot hold, is
  the conversion's.
\<close>

definition numeric_column ::
  "pandas \<Rightarrow> (string option list \<Rightarrow> error + cell list) \<Rightarrow> string option list \<Rightarrow> error + cell list" where
  "numeric_column P conv texts =
     (case conv texts of
        Inl e \<Rightarrow> Inl e
      | Inr cs \<Rightarrow>
          if list_all (\<lambda>t. case t of None \<Rightarrow> True | Some s \<Rightarrow> is_number P s) texts
          then Inr (keep_missing texts cs)
          else Inl ValueError)"

text \<open>
  One column, from its name and its fields, to its dtype and cells. A column named in
  \<^verbatim>\<open>parse_dates\<close> goes through the date conversion, which does not raise; otherwise the dtype
  dictionary decides. Under \<^verbatim>\<open>str\<close> a field that is no marker is kept as the text it is.
\<close>

definition convert_column ::
  "pandas \<Rightarrow> string list \<Rightarrow> (string \<times> dtype_arg) list \<Rightarrow> string \<Rightarrow> string option list
     \<Rightarrow> error + dtype \<times> cell list" where
  "convert_column P parse_dates dtype name texts =
     (if name \<in> set parse_dates
      then (case to_datetime P (map_of dtype name) texts of
              (d, cs) \<Rightarrow> Inr (d, keep_missing texts cs))
      else case map_of dtype name of
        Some Float64 \<Rightarrow>
          (case numeric_column P (to_float64 P) texts of
             Inl e \<Rightarrow> Inl e
           | Inr cs \<Rightarrow> Inr (Float64Dtype, cs))
      | Some Int64 \<Rightarrow>
          (case numeric_column P (to_int64 P) texts of
             Inl e \<Rightarrow> Inl e
           | Inr cs \<Rightarrow> Inr (Int64Dtype, cs))
      | Some Str \<Rightarrow> Inr (ObjectDtype, map (map_option StrV) texts)
      | Some Category \<Rightarrow> Inr (CategoricalDtype, keep_missing texts (to_categorical P texts))
      | None \<Rightarrow>
          (case infer_column P texts of
             (d, cs) \<Rightarrow> Inr (d, keep_missing texts cs)))"

text \<open>
  The columns \<^verbatim>\<open>usecols\<close> selects, by position and in the order of the file, whatever the
  order of \<^verbatim>\<open>usecols\<close>. pandas renames a repeated header name (\<^verbatim>\<open>X\<close>, \<^verbatim>\<open>X.1\<close>, ...), so a name
  selects its first occurrence only.
\<close>

definition selected :: "string list \<Rightarrow> string list \<Rightarrow> nat list" where
  "selected header usecols =
     filter (\<lambda>j. header ! j \<in> set usecols \<and> header ! j \<notin> set (take j header))
       [0..<length header]"

definition rectangular :: "string list \<Rightarrow> string list list \<Rightarrow> bool" where
  "rectangular header rows = list_all (\<lambda>r. length r = length header) rows"

text \<open>Column \<open>j\<close> of a file whose records all have as many fields as the header.\<close>

definition read_column ::
  "pandas \<Rightarrow> string list \<Rightarrow> (string \<times> dtype_arg) list \<Rightarrow> string list \<Rightarrow> string list list \<Rightarrow> nat
     \<Rightarrow> error + label \<times> dtype \<times> cell list" where
  "read_column P parse_dates dtype header rows j =
     (case convert_column P parse_dates dtype (header ! j) (map (\<lambda>r. missing (r ! j)) rows) of
        Inl e \<Rightarrow> Inl e
      | Inr (d, cs) \<Rightarrow> Inr (LStr (header ! j), d, cs))"

text \<open>
  \<^verbatim>\<open>pd.read_csv(path, parse_dates=..., dtype=..., usecols=...)\<close>. The path is read once. A
  missing file raises \<^verbatim>\<open>FileNotFoundError\<close>; a file that is not delimited text with the
  columns asked for raises an exception of class \<^verbatim>\<open>ValueError\<close>. The names of \<^verbatim>\<open>usecols\<close> are
  checked against the header when the parser is built, before any record is converted: a
  name the header lacks raises \<^verbatim>\<open>ValueError\<close>. The columns are then converted in the order
  of the file, and the first conversion that raises ends the call. The result has the row
  index \<open>0, 1, ...\<close> and no axis names.
\<close>

definition read_csv ::
  "pandas \<Rightarrow> path \<Rightarrow> string list \<Rightarrow> (string \<times> dtype_arg) list \<Rightarrow> string list \<Rightarrow> world
     \<Rightarrow> (error + table) \<times> world" where
  "read_csv P p parse_dates dtype usecols w =
     (case files w p of
        None \<Rightarrow> Inl FileNotFoundError
      | Some (ParquetFile T) \<Rightarrow> Inl ValueError
      | Some (TextFile header rows) \<Rightarrow>
          if \<not> list_all (\<lambda>c. c \<in> set header) usecols then Inl ValueError
          else if \<not> rectangular header rows
          then read_ragged P parse_dates dtype usecols header rows
          else case sequence (map (read_column P parse_dates dtype header rows)
                                  (selected header usecols)) of
                 Inl e \<Rightarrow> Inl e
               | Inr cols \<Rightarrow>
                   Inr \<lparr>index = range_index (length rows), index_name = None,
                        columns = map (\<lambda>(l, d, cs). (l, cs)) cols, columns_name = None,
                        col_dtypes = map (\<lambda>(l, d, cs). d) cols\<rparr>,
      access p w)"

text \<open>
  \<^verbatim>\<open>pd.read_parquet(path, engine="pyarrow")\<close>: the table the engine decodes, as it is. A file
  that is no Parquet file raises pyarrow's \<^verbatim>\<open>ArrowInvalid\<close>, a \<^verbatim>\<open>ValueError\<close>.
\<close>

definition read_parquet :: "path \<Rightarrow> world \<Rightarrow> (error + table) \<times> world" where
  "read_parquet p w =
     (case files w p of
        None \<Rightarrow> Inl FileNotFoundError
      | Some (TextFile header rows) \<Rightarrow> Inl ValueError
      | Some (ParquetFile T) \<Rightarrow> Inr T,
      access p w)"

section \<open>The loaders\<close>

text \<open>
  \<^verbatim>\<open>Loader\<close> is an abstract class: an object of it keeps the path it was built with and has
  a method \<^verbatim>\<open>load\<close>. The module defines two subclasses; any other subclass is a path and a
  \<^verbatim>\<open>load\<close> method of its own, which may do to the world whatever it likes.
  \<^verbatim>\<open>
  class CSVLoader(Loader):
      def load(self):
          dtypes = {"X": "Float64", "Y": "Float64", "OBJECTID": "Int64", "ADDRESS": str,
                    "LICSTATEPROV": "category", "VIODESCRIPTION": "category",
                    "VIOFINE": "Float64", "VOIDSTATUS": "category"}
          datetime_cols = ['ISSUEDATE', 'ISSUETIME']
          df = pd.read_csv(self.file_path, parse_dates=datetime_cols, dtype=dtypes,
                           usecols=list(dtypes.keys()) + datetime_cols)
          return df

  class ParquetLoader(Loader):
      def load(self):
          return pd.read_parquet(self.file_path, engine="pyarrow")
  \<close>
\<close>

datatype Loader =
    CSVLoader path
  | ParquetLoader path
  | Subclass path "path \<Rightarrow> world \<Rightarrow> (error + table) \<times> world"

definition dtypes :: "(string \<times> dtype_arg) list" where
  "dtypes =
     [(''X'', Float64), (''Y'', Float64), (''OBJECTID'', Int64), (''ADDRESS'', Str),
      (''LICSTATEPROV'', Category), (''VIODESCRIPTION'', Category), (''VIOFINE'', Float64),
      (''VOIDSTATUS'', Category)]"

definition datetime_cols :: "string list" where
  "datetime_cols = [''ISSUEDATE'', ''ISSUETIME'']"

fun load :: "pandas \<Rightarrow> Loader \<Rightarrow> world \<Rightarrow> (error + table) \<times> world" where
  "load P (CSVLoader file_path) w =
     read_csv P file_path datetime_cols dtypes (map fst dtypes @ datetime_cols) w"
| "load P (ParquetLoader file_path) w = read_parquet file_path w"
| "load P (Subclass file_path load_method) w = load_method file_path w"

text \<open>
  \<^verbatim>\<open>
  class LoadProcess:
      def __init__(self, data_loader): self.data_loader = data_loader
      def run(self): return self.data_loader.load()
  \<close>
  The object has one attribute, the loader; \<^verbatim>\<open>run\<close> calls the \<^verbatim>\<open>load\<close> of whatever loader it
  holds.
\<close>

record LoadProcess =
  data_loader :: Loader

definition run :: "pandas \<Rightarrow> LoadProcess \<Rightarrow> world \<Rightarrow> (error + table) \<times> world" where
  "run P self w = load P (data_loader self) w"

section \<open>What the specification says of a loaded table\<close>

text \<open>
  The column types of the table in section 3 of the specification, as dtypes: nullable
  64-bit float, nullable 64-bit integer, text, categorical text, parsed date/time.
\<close>

definition section3_types :: "(string \<times> dtype) list" where
  "section3_types =
     [(''X'', Float64Dtype), (''Y'', Float64Dtype), (''OBJECTID'', Int64Dtype),
      (''ADDRESS'', ObjectDtype), (''LICSTATEPROV'', CategoricalDtype),
      (''VIODESCRIPTION'', CategoricalDtype), (''VIOFINE'', Float64Dtype),
      (''VOIDSTATUS'', CategoricalDtype),
      (''ISSUEDATE'', Datetime64Dtype), (''ISSUETIME'', Datetime64Dtype)]"

text \<open>
  A valid file: every record has as many fields as the header and, of the columns that
  are loaded, every field of a numeric column is a missing-value marker or a number and
  pandas converts the column, and pandas parses each of the two date/time columns.
\<close>

definition valid_column :: "pandas \<Rightarrow> string \<Rightarrow> string option list \<Rightarrow> bool" where
  "valid_column P name texts =
     (if name \<in> set datetime_cols
      then fst (to_datetime P (map_of dtypes name) texts) = Datetime64Dtype
      else case map_of dtypes name of
        Some Float64 \<Rightarrow>
          list_all (\<lambda>t. case t of None \<Rightarrow> True | Some s \<Rightarrow> is_number P s) texts \<and>
          (case to_float64 P texts of Inl e \<Rightarrow> False | Inr cs \<Rightarrow> True)
      | Some Int64 \<Rightarrow>
          list_all (\<lambda>t. case t of None \<Rightarrow> True | Some s \<Rightarrow> is_number P s) texts \<and>
          (case to_int64 P texts of Inl e \<Rightarrow> False | Inr cs \<Rightarrow> True)
      | _ \<Rightarrow> True)"

definition valid_file :: "pandas \<Rightarrow> string list \<Rightarrow> string list list \<Rightarrow> bool" where
  "valid_file P header rows =
     (rectangular header rows \<and>
      list_all (\<lambda>j. valid_column P (header ! j) (map (\<lambda>r. missing (r ! j)) rows))
        (selected header (map fst dtypes @ datetime_cols)))"

section \<open>Example tables\<close>

definition scenario_D_table :: dataframe where
  "scenario_D_table =
     \<lparr>index = [], index_name = None, columns = [(LStr ''A'', []), (LStr ''B'', [])],
      columns_name = None\<rparr>"

definition tickets_table :: dataframe where
  "tickets_table =
     \<lparr>index = range_index 3, index_name = None,
      columns =
        [(LStr ''OBJECTID'', [Some (IntV 1), Some (IntV 2), Some (IntV 3)]),
         (LStr ''VIOFINE'', [Some (FloatV (Finite 10)), None, Some (FloatV (Finite 20))]),
         (LStr ''ADDRESS'', [None, None, Some (StrV ''MAIN ST'')])],
      columns_name = None\<rparr>"

definition tickets_table' :: dataframe where
  "tickets_table' =
     \<lparr>index = [LStr ''a'', LStr ''b'', LStr ''c''], index_name = Some (LStr ''row''),
      columns =
        [(LStr ''OBJECTID'', [Some (IntV 7), Some (IntV 8), Some (IntV 9)]),
         (LStr ''VIOFINE'', [Some (FloatV (Finite 55)), Some (FloatV NaN), Some (FloatV PosInf)]),
         (LStr ''ADDRESS'', [None, None, Some (StrV ''ELM ST'')])],
      columns_name = None\<rparr>"

definition named_tickets_table :: dataframe where
  "named_tickets_table = tickets_table\<lparr>columns_name := Some (LStr ''cols'')\<rparr>"

definition heap_of :: "dataframe list \<Rightarrow> heap" where
  "heap_of ts = \<lparr>frames = (\<lambda>r. if r < length ts then Some (ts ! r) else None), fresh = length ts\<rparr>"

section \<open>Example files\<close>

text \<open>
  One instance of the conversions, for the examples. It knows the numbers and dates that
  occur in the example files; like pandas it converts a column as a whole, leaves a date
  column as text when a field is no date, and refuses every file whose records differ in
  length.
\<close>

definition example_float :: "string \<Rightarrow> float64 option" where
  "example_float =
     map_of [(''1'', Finite 1), (''2'', Finite 2), (''3'', Finite 3), (''10.0'', Finite 10),
             (''20.0'', Finite 20), (''-86.5'', Finite (- 173 / 2)), (''39.1'', Finite (391 / 10)),
             (''2.5'', Finite (5 / 2))]"

definition example_int :: "string \<Rightarrow> int option" where
  "example_int = map_of [(''1'', 1), (''2'', 2), (''3'', 3)]"

definition example_date :: "string \<Rightarrow> int option" where
  "example_date = map_of [(''2020-01-01'', 18262), (''2020-01-02'', 18263), (''08:30'', 510)]"

definition example_to_float64 :: "string option list \<Rightarrow> error + cell list" where
  "example_to_float64 texts =
     sequence (map (\<lambda>t. case t of
                           None \<Rightarrow> Inr None
                         | Some s \<Rightarrow> (case example_float s of
                                        None \<Rightarrow> Inl ValueError
                                      | Some f \<Rightarrow> Inr (Some (FloatV f)))) texts)"

definition example_to_int64 :: "string option list \<Rightarrow> error + cell list" where
  "example_to_int64 texts =
     sequence (map (\<lambda>t. case t of
                           None \<Rightarrow> Inr None
                         | Some s \<Rightarrow> (case example_int s of
                                        Some i \<Rightarrow> Inr (Some (IntV i))
                                      | None \<Rightarrow> (case example_float s of
                                                   None \<Rightarrow> Inl ValueError
                                                 | Some f \<Rightarrow> Inl TypeError))) texts)"

definition example_to_datetime :: "dtype_arg option \<Rightarrow> string option list \<Rightarrow> dtype \<times> cell list" where
  "example_to_datetime d texts =
     (if texts \<noteq> [] \<and>
         list_all (\<lambda>t. case t of None \<Rightarrow> True | Some s \<Rightarrow> example_date s \<noteq> None) texts
      then (Datetime64Dtype,
            map (\<lambda>t. case t of None \<Rightarrow> None | Some s \<Rightarrow> map_option TimestampV (example_date s)) texts)
      else (ObjectDtype, map (map_option StrV) texts))"

definition example_pandas :: pandas where
  "example_pandas =
     \<lparr>is_number = (\<lambda>s. example_float s \<noteq> None),
      to_float64 = example_to_float64,
      to_int64 = example_to_int64,
      to_categorical = map (map_option StrV),
      to_datetime = example_to_datetime,
      infer_column = (\<lambda>texts. (ObjectDtype, map (map_option StrV) texts)),
      read_ragged = (\<lambda>parse_dates dtype usecols header rows. Inl ValueError)\<rparr>"

definition tickets_header :: "string list" where
  "tickets_header =
     [''OBJECTID'', ''X'', ''Y'', ''ADDRESS'', ''OFFICER'', ''LICSTATEPROV'', ''VIODESCRIPTION'',
      ''VIOFINE'', ''VOIDSTATUS'', ''ISSUEDATE'', ''ISSUETIME'']"

definition tickets_records :: "string list list" where
  "tickets_records =
     [[''1'', ''-86.5'', ''39.1'', ''MAIN ST'', ''B12'', ''IN'', ''EXPIRED METER'', ''10.0'', ''N'',
       ''2020-01-01'', ''08:30''],
      [''2'', '''', '''', '''', ''B12'', ''IN'', ''NO PERMIT'', '''', ''NA'', ''2020-01-02'', ''''],
      [''3'', ''-86.5'', ''39.1'', ''ELM ST'', ''C7'', ''OH'', ''EXPIRED METER'', ''20.0'', ''N'',
       ''2020-01-02'', ''08:30'']]"

definition bad_fine_records :: "string list list" where
  "bad_fine_records =
     [[''1'', ''-86.5'', ''39.1'', ''MAIN ST'', ''B12'', ''IN'', ''EXPIRED METER'', ''abc'', ''N'',
       ''2020-01-01'', ''08:30'']]"

text \<open>Scenario C: a Parquet file with the schema \<^verbatim>\<open>{A: integer, B: text}\<close>.\<close>

definition scenario_C_table :: table where
  "scenario_C_table =
     \<lparr>index = range_index 2, index_name = None,
      columns = [(LStr ''A'', [Some (IntV 1), Some (IntV 2)]),
                 (LStr ''B'', [Some (StrV ''x''), None])],
      columns_name = None,
      col_dtypes = [NumpyDtype ''int64'', ObjectDtype]\<rparr>"

definition example_files :: "path \<Rightarrow> disk_file option" where
  "example_files =
     map_of [(''tickets.csv'', TextFile tickets_header tickets_records),
             (''bad_fine.csv'', TextFile tickets_header bad_fine_records),
             (''no_objectid.csv'', TextFile (tl tickets_header) (map tl tickets_records)),
             (''scenario_C.parquet'', ParquetFile scenario_C_table)]"

definition example_world :: world where
  "example_world = \<lparr>files = example_files, accesses = []\<rparr>"

text \<open>
  A loader of a third kind: its first \<^verbatim>\<open>load\<close> of a path fails, every later one reads the
  Parquet file.
\<close>

definition flaky_load :: "path \<Rightarrow> world \<Rightarrow> (error + table) \<times> world" where
  "flaky_load p w = (if p \<in> set (accesses w) then read_parquet p w else (Inl ValueError, access p w))"

definition flaky_loader :: Loader where
  "flaky_loader = Subclass ''scenario_C.parquet'' flaky_load"

section \<open>Properties of profile_nulls\<close>

lemma sequence_map_Inr: "sequence (map (\<lambda>x. Inr (f x)) xs) = Inr (map f xs)"
  by (induction xs) simp_all

lemma count_true: "(\<Sum>x\<leftarrow>xs. if p x then 1 else 0) = int (length (filter p xs))"
  by (induction xs) simp_all

lemma truediv_counts:
  "truediv_cells (map (\<lambda>c. Some (IntV (k c))) cs) n
     = Inr (map (\<lambda>c. Some (FloatV (fdiv (Finite (of_int (k c))) n))) cs)"
  by (simp add: truediv_cells_def comp_def sequence_map_Inr)

lemma profile_nulls_eval:
  assumes "frames h df = Some T" and "heap_ok h"
    and "columns_name T \<noteq> Some (LInt 0)" and "columns_name T \<noteq> Some (LStr ''Null Count'')"
  shows "profile_nulls df h =
     (Inr (fresh h),
      h\<lparr>frames := (frames h)(fresh h \<mapsto>
            \<lparr>index = range_index (length (columns T)), index_name = None,
             columns =
               (if columns_name T = Some (LStr ''Null Pct'')
                then [(LStr ''Null Pct'',
                         map (\<lambda>c. Some (FloatV (fdiv (Finite (of_int (int (length (filter isna_cell (snd c))))))
                                                 (int (length (index T)))))) (columns T)),
                      (LStr ''Null Count'',
                         map (\<lambda>c. Some (IntV (int (length (filter isna_cell (snd c)))))) (columns T))]
                else [(case columns_name T of
                         None \<Rightarrow> LStr ''Column''
                       | Some m \<Rightarrow> if m = LStr ''index'' then LStr ''Column'' else m,
                       map (\<lambda>c. cell_of_label (fst c)) (columns T)),
                      (LStr ''Null Count'',
                         map (\<lambda>c. Some (IntV (int (length (filter isna_cell (snd c)))))) (columns T)),
                      (LStr ''Null Pct'',
                         map (\<lambda>c. Some (FloatV (fdiv (Finite (of_int (int (length (filter isna_cell (snd c))))))
                                                 (int (length (index T)))))) (columns T))]),
             columns_name = None\<rparr>),
         fresh := Suc (fresh h)\<rparr>)"
proof -
  have ne: "df \<noteq> fresh h" using assms(1,2) by (auto simp: heap_ok_def)
  show ?thesis
  proof (cases "columns_name T")
    case None
    with assms(1) ne show ?thesis
      by (simp add: profile_nulls_def deref_def isna_def sum_axis0_def to_frame_def reset_index_def
         rename_def alloc_def getitem_def truediv_def setitem_def align_def set_column_def len_def
         Let_def split_def comp_def count_true truediv_counts)
  next
    case (Some m)
    with assms(3,4) have m: "m \<noteq> LInt 0" "m \<noteq> LStr ''Null Count''" by simp_all
    show ?thesis
    proof (cases "m = LStr ''index''")
      case True
      with Some assms(1) ne show ?thesis
        by (simp add: profile_nulls_def deref_def isna_def sum_axis0_def to_frame_def reset_index_def
           rename_def alloc_def getitem_def truediv_def setitem_def align_def set_column_def len_def
           Let_def split_def comp_def count_true truediv_counts)
    next
      case False
      then have r: "(case map_of [(LStr ''index'', LStr ''Column''), (LInt 0, LStr ''Null Count'')] m of
                      None \<Rightarrow> m | Some l' \<Rightarrow> l') = m"
        using m by simp
      show ?thesis
      proof (cases "m = LStr ''Null Pct''")
        case True
        with Some assms(1) ne show ?thesis
          by (simp add: profile_nulls_def deref_def isna_def sum_axis0_def to_frame_def reset_index_def
             rename_def alloc_def getitem_def truediv_def setitem_def align_def set_column_def len_def
             Let_def split_def comp_def count_true truediv_counts)
      next
        case np: False
        with Some False m assms(1) ne show ?thesis
          by (simp add: profile_nulls_def deref_def isna_def sum_axis0_def to_frame_def reset_index_def
             rename_def alloc_def getitem_def truediv_def setitem_def align_def set_column_def len_def
             Let_def split_def comp_def count_true truediv_counts)
      qed
    qed
  qed
qed

lemma heap_ok_heap_of: "heap_ok (heap_of ts)"
  by (simp add: heap_ok_def heap_of_def)

lemma nulls_le_rows:
  assumes "wf_frame T" and "c \<in> set (columns T)"
  shows "length (filter isna_cell (snd c)) \<le> len T"
proof -
  have "length (snd c) = length (index T)"
    using assms by (simp add: wf_frame_def list_all_iff)
  moreover have "length (filter isna_cell (snd c)) \<le> length (snd c)"
    by (rule length_filter_le)
  ultimately show ?thesis by (simp add: len_def)
qed

lemma range_index_simps:
  "range_index 0 = []"
  "range_index (Suc n) = range_index n @ [LInt (int n)]"
  by (simp_all add: range_index_def)

text \<open>The report of a table whose column axis has no clashing name, in closed form.\<close>

lemma profile_nulls_report:
  assumes "frames h df = Some T" and "heap_ok h"
    and "columns_name T \<noteq> Some (LInt 0)" and "columns_name T \<noteq> Some (LStr ''Null Count'')"
  obtains R where
       "profile_nulls df h =
          (Inr (fresh h), h\<lparr>frames := (frames h)(fresh h \<mapsto> R), fresh := Suc (fresh h)\<rparr>)"
    and "index R = range_index (length (columns T))"
    and "map_of (columns R) (LStr ''Null Count'') =
          Some (map (\<lambda>c. Some (IntV (int (length (filter isna_cell (snd c)))))) (columns T))"
    and "map_of (columns R) (LStr ''Null Pct'') =
          Some (map (\<lambda>c. Some (FloatV (fdiv (Finite (of_int (int (length (filter isna_cell (snd c))))))
                                       (int (length (index T)))))) (columns T))"
    and "list_all (\<lambda>c. length (snd c) = length (columns T)) (columns R)"
    and "columns_name T \<noteq> Some (LStr ''Null Pct'') \<longrightarrow>
           columns R ! 0 =
             (case columns_name T of
                None \<Rightarrow> LStr ''Column''
              | Some m \<Rightarrow> if m = LStr ''index'' then LStr ''Column'' else m,
              map (\<lambda>c. cell_of_label (fst c)) (columns T))"
    and "columns_name T = None \<longrightarrow>
           map_of (columns R) (LStr ''Column'') =
             Some (map (\<lambda>c. cell_of_label (fst c)) (columns T))"
proof -
  define names where "names = map (\<lambda>c. cell_of_label (fst c)) (columns T)"
  define counts where
    "counts = map (\<lambda>c. Some (IntV (int (length (filter isna_cell (snd c)))))) (columns T)"
  define pcts where
    "pcts = map (\<lambda>c. Some (FloatV (fdiv (Finite (of_int (int (length (filter isna_cell (snd c))))))
                                   (int (length (index T)))))) (columns T)"
  define first where
    "first = (case columns_name T of
                None \<Rightarrow> LStr ''Column''
              | Some m \<Rightarrow> if m = LStr ''index'' then LStr ''Column'' else m)"
  define R where
    "R = \<lparr>index = range_index (length (columns T)), index_name = None,
          columns = (if columns_name T = Some (LStr ''Null Pct'')
                     then [(LStr ''Null Pct'', pcts), (LStr ''Null Count'', counts)]
                     else [(first, names), (LStr ''Null Count'', counts), (LStr ''Null Pct'', pcts)]),
          columns_name = None\<rparr>"
  have run: "profile_nulls df h =
      (Inr (fresh h), h\<lparr>frames := (frames h)(fresh h \<mapsto> R), fresh := Suc (fresh h)\<rparr>)"
    unfolding R_def names_def counts_def pcts_def first_def by (rule profile_nulls_eval [OF assms])
  have len: "length names = length (columns T)" "length counts = length (columns T)"
    "length pcts = length (columns T)"
    by (simp_all add: names_def counts_def pcts_def)
  have f: "first \<noteq> LStr ''Null Count''" "first \<noteq> LStr ''Null Pct''"
    if "columns_name T \<noteq> Some (LStr ''Null Pct'')"
  proof -
    show "first \<noteq> LStr ''Null Count''"
      using assms(4) by (cases "columns_name T") (simp_all add: first_def)
    show "first \<noteq> LStr ''Null Pct''"
      using that by (cases "columns_name T") (simp_all add: first_def)
  qed
  have a: "index R = range_index (length (columns T))" by (simp add: R_def)
  have b: "map_of (columns R) (LStr ''Null Count'') = Some counts"
    using f by (simp add: R_def)
  have c: "map_of (columns R) (LStr ''Null Pct'') = Some pcts"
    using f by (simp add: R_def)
  have d: "list_all (\<lambda>c. length (snd c) = length (columns T)) (columns R)"
    by (simp add: R_def len)
  have e: "columns_name T \<noteq> Some (LStr ''Null Pct'') \<longrightarrow> columns R ! 0 = (first, names)"
    by (simp add: R_def)
  have g: "columns_name T = None \<longrightarrow> map_of (columns R) (LStr ''Column'') = Some names"
    by (simp add: R_def first_def)
  show thesis
  proof (rule that [of R])
    show "profile_nulls df h =
          (Inr (fresh h), h\<lparr>frames := (frames h)(fresh h \<mapsto> R), fresh := Suc (fresh h)\<rparr>)"
      by (rule run)
    show "index R = range_index (length (columns T))" by (rule a)
    show "map_of (columns R) (LStr ''Null Count'') =
          Some (map (\<lambda>c. Some (IntV (int (length (filter isna_cell (snd c)))))) (columns T))"
      using b unfolding counts_def .
    show "map_of (columns R) (LStr ''Null Pct'') =
          Some (map (\<lambda>c. Some (FloatV (fdiv (Finite (of_int (int (length (filter isna_cell (snd c))))))
                                       (int (length (index T)))))) (columns T))"
      using c unfolding pcts_def .
    show "list_all (\<lambda>c. length (snd c) = length (columns T)) (columns R)" by (rule d)
    show "columns_name T \<noteq> Some (LStr ''Null Pct'') \<longrightarrow>
           columns R ! 0 =
             (case columns_name T of
                None \<Rightarrow> LStr ''Column''
              | Some m \<Rightarrow> if m = LStr ''index'' then LStr ''Column'' else m,
              map (\<lambda>c. cell_of_label (fst c)) (columns T))"
      using e unfolding first_def names_def .
    show "columns_name T = None \<longrightarrow>
           map_of (columns R) (LStr ''Column'') =
             Some (map (\<lambda>c. cell_of_label (fst c)) (columns T))"
      using g unfolding names_def .
  qed
qed

lemma profile_nulls_store:
  "\<exists>res h'. profile_nulls df h = (res, h') \<and>
     (\<forall>a. a \<noteq> fresh h \<longrightarrow> frames h' a = frames h a) \<and>
     (\<forall>r. res = Inr r \<longrightarrow> r = fresh h)"
  by (auto simp: profile_nulls_def alloc_def deref_def Let_def split: sum.splits option.splits)

text \<open>What \<^verbatim>\<open>profile_nulls\<close> reads of its argument: the null counts and the number of rows.\<close>

lemma profile_nulls_reads:
  assumes "frames h df = Some T" and "heap_ok h"
  shows "profile_nulls df h =
     (case reset_index (to_frame (sum_axis0 (isna T))) of Inl e \<Rightarrow> (Inl e, h) | Inr R \<Rightarrow>
       (let (null_profile, h1) =
              alloc (rename R [(LStr ''index'', LStr ''Column''), (LInt 0, LStr ''Null Count'')]) h
        in
        (case deref h1 null_profile of Inl e \<Rightarrow> (Inl e, h1) | Inr P \<Rightarrow>
         (case getitem P (LStr ''Null Count'') of Inl e \<Rightarrow> (Inl e, h1) | Inr counts \<Rightarrow>
           (case truediv counts (int (len T)) of Inl e \<Rightarrow> (Inl e, h1) | Inr pct \<Rightarrow>
            (case setitem P (LStr ''Null Pct'') pct of Inl e \<Rightarrow> (Inl e, h1) | Inr P' \<Rightarrow>
              (Inr null_profile, h1\<lparr>frames := (frames h1)(null_profile \<mapsto> P')\<rparr>)))))))"
proof -
  have ne: "df \<noteq> fresh h" using assms by (auto simp: heap_ok_def)
  show ?thesis
    using assms(1) ne
    by (simp add: profile_nulls_def alloc_def deref_def Let_def split: sum.splits)
qed

lemma masked_count:
  fixes cs1 cs2 :: "('a \<times> cell list) list"
  assumes "map (\<lambda>c. map isna_cell (snd c)) cs1 = map (\<lambda>c. map isna_cell (snd c)) cs2"
  shows "map (\<lambda>c. length (filter isna_cell (snd c))) cs1 = map (\<lambda>c. length (filter isna_cell (snd c))) cs2"
proof -
  have key: "map (\<lambda>c. length (filter isna_cell (snd c))) cs
      = map (\<lambda>bs. length (filter id bs)) (map (\<lambda>c. map isna_cell (snd c)) cs)"
    for cs :: "('a \<times> cell list) list"
    by (induction cs) (simp_all add: filter_map comp_def)
  have "map (\<lambda>c. length (filter isna_cell (snd c))) cs1
      = map (\<lambda>bs. length (filter id bs)) (map (\<lambda>c. map isna_cell (snd c)) cs1)"
    by (rule key)
  also have "\<dots> = map (\<lambda>bs. length (filter id bs)) (map (\<lambda>c. map isna_cell (snd c)) cs2)"
    by (simp only: assms)
  also have "\<dots> = map (\<lambda>c. length (filter isna_cell (snd c))) cs2"
    by (rule key [symmetric])
  finally show ?thesis .
qed

lemma map_cong_counts:
  assumes "map k cs1 = map k cs2"
  shows "map (\<lambda>c. g (k c)) cs1 = map (\<lambda>c. g (k c)) cs2"
proof -
  have "map g (map k cs1) = map g (map k cs2)" by (simp only: assms)
  then show ?thesis by (simp add: comp_def)
qed

lemma null_counts_eq:
  assumes names: "map fst (columns T1) = map fst (columns T2)"
    and axis: "columns_name T1 = columns_name T2"
    and mask: "map (\<lambda>c. map isna_cell (snd c)) (columns T1)
             = map (\<lambda>c. map isna_cell (snd c)) (columns T2)"
  shows "sum_axis0 (isna T1) = sum_axis0 (isna T2)"
proof -
  have cts: "map (\<lambda>c. length (filter isna_cell (snd c))) (columns T1)
           = map (\<lambda>c. length (filter isna_cell (snd c))) (columns T2)"
    using mask by (rule masked_count)
  have "map (\<lambda>c. int (length (filter isna_cell (snd c)))) (columns T1)
      = map (\<lambda>c. int (length (filter isna_cell (snd c)))) (columns T2)"
    using cts by (rule map_cong_counts)
  then show ?thesis
    using names axis
    by (simp add: sum_axis0_def isna_def split_def comp_def count_true)
qed

text \<open>
  A column axis named \<open>0\<close> clashes with the label of the count column: \<^verbatim>\<open>reset_index\<close> raises
  and no report is built.
\<close>

lemma profile_nulls_clash:
  assumes "frames h df = Some T" and "columns_name T = Some (LInt 0)"
  shows "profile_nulls df h = (Inl ValueError, h)"
  using assms
  by (simp add: profile_nulls_def deref_def reset_index_def to_frame_def sum_axis0_def isna_def)

text \<open>
  Claim C3. For every table \<open>T\<close> and every row of the report, \<^verbatim>\<open>Null Pct\<close> is that row's
  \<^verbatim>\<open>Null Count\<close> divided by the number of rows of \<open>T\<close>; when \<open>T\<close> has no row the count is
  \<open>0\<close> and \<^verbatim>\<open>Null Pct\<close> is not-a-number, and the call still returns. The two hypotheses on
  the name of the column axis hold of every table whose column axis has no name, which
  is every table loaded from a valid delimited-text file; they exclude only the two names
  that clash with the labels \<^verbatim>\<open>0\<close> and \<^verbatim>\<open>Null Count\<close> the function itself uses.
\<close>

theorem profile_nulls_pct:
  assumes "frames h df = Some T" and "heap_ok h" and "wf_frame T"
    and "columns_name T \<noteq> Some (LInt 0)" and "columns_name T \<noteq> Some (LStr ''Null Count'')"
  shows "\<exists>r h' R counts pcts.
           profile_nulls df h = (Inr r, h') \<and> frames h' r = Some R \<and>
           map_of (columns R) (LStr ''Null Count'') = Some counts \<and>
           map_of (columns R) (LStr ''Null Pct'') = Some pcts \<and>
           length counts = len R \<and> length pcts = len R \<and>
           (\<forall>i<len R. \<exists>n. counts ! i = Some (IntV n) \<and>
              (if len T = 0 then n = 0 \<and> pcts ! i = Some (FloatV NaN)
               else pcts ! i = Some (FloatV (Finite (of_int n / of_nat (len T))))))"
proof -
  let ?n = "\<lambda>c. int (length (filter isna_cell (snd c)))"
  let ?counts = "map (\<lambda>c. Some (IntV (?n c))) (columns T)"
  let ?pcts = "map (\<lambda>c. Some (FloatV (fdiv (Finite (of_int (?n c))) (int (length (index T)))))) (columns T)"
  from assms(1,2,4,5) obtain R where
    run: "profile_nulls df h =
            (Inr (fresh h), h\<lparr>frames := (frames h)(fresh h \<mapsto> R), fresh := Suc (fresh h)\<rparr>)"
    and idx: "index R = range_index (length (columns T))"
    and cnt: "map_of (columns R) (LStr ''Null Count'') = Some ?counts"
    and pct: "map_of (columns R) (LStr ''Null Pct'') = Some ?pcts"
    by (rule profile_nulls_report)
  have lenR: "len R = length (columns T)"
    by (simp add: len_def idx range_index_def)
  have rows: "\<exists>n. ?counts ! i = Some (IntV n) \<and>
              (if len T = 0 then n = 0 \<and> ?pcts ! i = Some (FloatV NaN)
               else ?pcts ! i = Some (FloatV (Finite (of_int n / of_nat (len T)))))"
    if "i < length (columns T)" for i
  proof -
    have mem: "columns T ! i \<in> set (columns T)" using that by simp
    have le: "length (filter isna_cell (snd (columns T ! i))) \<le> len T"
      using assms(3) mem by (rule nulls_le_rows)
    show ?thesis
    proof (cases "len T = 0")
      case True
      with le have "length (filter isna_cell (snd (columns T ! i))) = 0" by simp
      with True that show ?thesis by (simp add: len_def)
    next
      case False
      with that show ?thesis by (simp add: len_def)
    qed
  qed
  have "frames (h\<lparr>frames := (frames h)(fresh h \<mapsto> R), fresh := Suc (fresh h)\<rparr>) (fresh h) = Some R"
    by simp
  moreover have "length ?counts = len R" "length ?pcts = len R"
    by (simp_all add: lenR)
  moreover have "\<forall>i<len R. \<exists>n. ?counts ! i = Some (IntV n) \<and>
              (if len T = 0 then n = 0 \<and> ?pcts ! i = Some (FloatV NaN)
               else ?pcts ! i = Some (FloatV (Finite (of_int n / of_nat (len T)))))"
  proof (intro allI impI)
    fix i assume "i < len R"
    then have "i < length (columns T)" by (simp only: lenR)
    then show "\<exists>n. ?counts ! i = Some (IntV n) \<and>
              (if len T = 0 then n = 0 \<and> ?pcts ! i = Some (FloatV NaN)
               else ?pcts ! i = Some (FloatV (Finite (of_int n / of_nat (len T)))))"
      by (rule rows)
  qed
  ultimately show ?thesis using run cnt pct by blast
qed

text \<open>
  Claim C4. The report has one row per column of \<open>T\<close>, in the order of \<open>T\<close>'s columns: row
  \<open>j\<close> names column \<open>j\<close>, and its \<^verbatim>\<open>Null Count\<close> is an integer between \<open>0\<close> and the number
  of rows of \<open>T\<close>, equal to the number of rows whose cell in that column is null. The
  names are the first column of the report; it is labelled \<^verbatim>\<open>Column\<close> when the column axis
  of \<open>T\<close> has no name, as for every table loaded from a valid delimited-text file, and
  bears the name of the axis otherwise.
\<close>

theorem profile_nulls_rows:
  assumes "frames h df = Some T" and "heap_ok h" and "wf_frame T"
    and "columns_name T \<noteq> Some (LInt 0)" and "columns_name T \<noteq> Some (LStr ''Null Count'')"
  shows "\<exists>r h' R counts.
           profile_nulls df h = (Inr r, h') \<and> frames h' r = Some R \<and>
           wf_frame R \<and> len R = length (columns T) \<and>
           map_of (columns R) (LStr ''Null Count'') = Some counts \<and>
           (\<forall>j<length (columns T).
              \<exists>n. counts ! j = Some (IntV n) \<and> 0 \<le> n \<and> n \<le> int (len T) \<and>
                   n = int (card {i. i < len T \<and> isna_cell (snd (columns T ! j) ! i)})) \<and>
           (columns_name T \<noteq> Some (LStr ''Null Pct'') \<longrightarrow>
              (\<exists>names. columns R ! 0 =
                  (case columns_name T of
                     None \<Rightarrow> LStr ''Column''
                   | Some m \<Rightarrow> if m = LStr ''index'' then LStr ''Column'' else m, names) \<and>
                 (\<forall>j<length (columns T). names ! j = cell_of_label (fst (columns T ! j))))) \<and>
           (columns_name T = None \<longrightarrow>
              (\<exists>names. map_of (columns R) (LStr ''Column'') = Some names \<and>
                 (\<forall>j<length (columns T). names ! j = cell_of_label (fst (columns T ! j)))))"
proof -
  let ?names = "map (\<lambda>c. cell_of_label (fst c)) (columns T)"
  let ?counts = "map (\<lambda>c. Some (IntV (int (length (filter isna_cell (snd c)))))) (columns T)"
  from assms(1,2,4,5) obtain R where
    run: "profile_nulls df h =
            (Inr (fresh h), h\<lparr>frames := (frames h)(fresh h \<mapsto> R), fresh := Suc (fresh h)\<rparr>)"
    and idx: "index R = range_index (length (columns T))"
    and cnt: "map_of (columns R) (LStr ''Null Count'') = Some ?counts"
    and lens: "list_all (\<lambda>c. length (snd c) = length (columns T)) (columns R)"
    and first: "columns_name T \<noteq> Some (LStr ''Null Pct'') \<longrightarrow>
             columns R ! 0 =
               (case columns_name T of
                  None \<Rightarrow> LStr ''Column''
                | Some m \<Rightarrow> if m = LStr ''index'' then LStr ''Column'' else m, ?names)"
    and plain: "columns_name T = None \<longrightarrow> map_of (columns R) (LStr ''Column'') = Some ?names"
    by (rule profile_nulls_report)
  have lenR: "len R = length (columns T)"
    by (simp add: len_def idx range_index_def)
  have wf: "wf_frame R"
    using lens lenR by (simp add: wf_frame_def len_def)
  have nm: "\<forall>j<length (columns T). ?names ! j = cell_of_label (fst (columns T ! j))"
    by simp
  have cs: "\<forall>j<length (columns T).
              \<exists>n. ?counts ! j = Some (IntV n) \<and> 0 \<le> n \<and> n \<le> int (len T) \<and>
                   n = int (card {i. i < len T \<and> isna_cell (snd (columns T ! j) ! i)})"
  proof (intro allI impI)
    fix j assume j: "j < length (columns T)"
    let ?cs = "snd (columns T ! j)"
    have mem: "columns T ! j \<in> set (columns T)" using j by simp
    have le: "length (filter isna_cell ?cs) \<le> len T"
      using assms(3) mem by (rule nulls_le_rows)
    have "length ?cs = len T"
      using assms(3) mem by (simp add: wf_frame_def list_all_iff len_def)
    then have card: "length (filter isna_cell ?cs) = card {i. i < len T \<and> isna_cell (?cs ! i)}"
      by (simp add: length_filter_conv_card)
    show "\<exists>n. ?counts ! j = Some (IntV n) \<and> 0 \<le> n \<and> n \<le> int (len T) \<and>
                   n = int (card {i. i < len T \<and> isna_cell (?cs ! i)})"
      using j le card by simp
  qed
  let ?h' = "h\<lparr>frames := (frames h)(fresh h \<mapsto> R), fresh := Suc (fresh h)\<rparr>"
  have fr: "frames ?h' (fresh h) = Some R" by simp
  have first': "columns_name T \<noteq> Some (LStr ''Null Pct'') \<longrightarrow>
              (\<exists>names. columns R ! 0 =
                  (case columns_name T of
                     None \<Rightarrow> LStr ''Column''
                   | Some m \<Rightarrow> if m = LStr ''index'' then LStr ''Column'' else m, names) \<and>
                 (\<forall>j<length (columns T). names ! j = cell_of_label (fst (columns T ! j))))"
    using first nm by (intro impI exI [of _ ?names] conjI) simp_all
  have plain': "columns_name T = None \<longrightarrow>
              (\<exists>names. map_of (columns R) (LStr ''Column'') = Some names \<and>
                 (\<forall>j<length (columns T). names ! j = cell_of_label (fst (columns T ! j))))"
    using plain nm by (intro impI exI [of _ ?names] conjI) simp_all
  from run fr wf lenR cnt cs first' plain' show ?thesis
    by (intro exI [of _ "fresh h"] exI [of _ ?h'] exI [of _ R] exI [of _ ?counts] conjI)
qed

text \<open>
  Claim C8. Calling \<^verbatim>\<open>profile_nulls\<close> twice on the same table, the second call in the store
  the first one left, yields two reports (two objects) that are equal.
\<close>

theorem profile_nulls_twice:
  assumes "frames h df = Some T" and "heap_ok h"
    and "columns_name T \<noteq> Some (LInt 0)" and "columns_name T \<noteq> Some (LStr ''Null Count'')"
  shows "\<exists>r1 h1 r2 h2 R.
           profile_nulls df h = (Inr r1, h1) \<and> profile_nulls df h1 = (Inr r2, h2) \<and>
           r1 \<noteq> r2 \<and> frames h2 r1 = Some R \<and> frames h2 r2 = Some R"
proof -
  define R where "R =
     \<lparr>index = range_index (length (columns T)), index_name = None,
      columns =
        (if columns_name T = Some (LStr ''Null Pct'')
         then [(LStr ''Null Pct'',
                  map (\<lambda>c. Some (FloatV (fdiv (Finite (of_int (int (length (filter isna_cell (snd c))))))
                                          (int (length (index T)))))) (columns T)),
               (LStr ''Null Count'',
                  map (\<lambda>c. Some (IntV (int (length (filter isna_cell (snd c)))))) (columns T))]
         else [(case columns_name T of
                  None \<Rightarrow> LStr ''Column''
                | Some m \<Rightarrow> if m = LStr ''index'' then LStr ''Column'' else m,
                map (\<lambda>c. cell_of_label (fst c)) (columns T)),
               (LStr ''Null Count'',
                  map (\<lambda>c. Some (IntV (int (length (filter isna_cell (snd c)))))) (columns T)),
               (LStr ''Null Pct'',
                  map (\<lambda>c. Some (FloatV (fdiv (Finite (of_int (int (length (filter isna_cell (snd c))))))
                                          (int (length (index T)))))) (columns T))]),
      columns_name = None\<rparr>"
  define h1 where "h1 = h\<lparr>frames := (frames h)(fresh h \<mapsto> R), fresh := Suc (fresh h)\<rparr>"
  define h2 where "h2 = h1\<lparr>frames := (frames h1)(fresh h1 \<mapsto> R), fresh := Suc (fresh h1)\<rparr>"
  have ne: "df \<noteq> fresh h" using assms(1,2) by (auto simp: heap_ok_def)
  have first: "profile_nulls df h = (Inr (fresh h), h1)"
    unfolding h1_def R_def using assms by (rule profile_nulls_eval)
  have T1: "frames h1 df = Some T" using assms(1) ne by (simp add: h1_def)
  have ok1: "heap_ok h1" using assms(2) by (simp add: heap_ok_def h1_def)
  have second: "profile_nulls df h1 = (Inr (fresh h1), h2)"
    unfolding h2_def R_def using T1 ok1 assms(3,4) by (rule profile_nulls_eval)
  have "fresh h \<noteq> fresh h1" by (simp add: h1_def)
  moreover have "frames h2 (fresh h) = Some R" by (simp add: h2_def h1_def)
  moreover have "frames h2 (fresh h1) = Some R" by (simp add: h2_def)
  ultimately show ?thesis using first second by blast
qed

text \<open>
  Claim C9. \<^verbatim>\<open>profile_nulls\<close> leaves its argument as it was, whether it returns a report or
  raises: after the call the reference still denotes the same frame (index, axis names,
  column order, every cell), every frame that existed before the call is unchanged, and a
  report, when there is one, is another object. There is one whenever the name of the
  column axis does not clash.
\<close>

theorem profile_nulls_frame:
  assumes "frames h df = Some T" and "heap_ok h"
  shows "\<exists>res h'. profile_nulls df h = (res, h') \<and> frames h' df = Some T \<and>
           (\<forall>a. frames h a \<noteq> None \<longrightarrow> frames h' a = frames h a) \<and>
           (\<forall>r. res = Inr r \<longrightarrow> r \<noteq> df) \<and>
           (columns_name T \<noteq> Some (LInt 0) \<and> columns_name T \<noteq> Some (LStr ''Null Count'')
              \<longrightarrow> (\<exists>r. res = Inr r))"
proof -
  have old: "a \<noteq> fresh h" if "frames h a \<noteq> None" for a
    using that assms(2) by (auto simp: heap_ok_def)
  from profile_nulls_store [of df h] obtain res h' where
    run: "profile_nulls df h = (res, h')"
    and keep: "\<forall>a. a \<noteq> fresh h \<longrightarrow> frames h' a = frames h a"
    and new: "\<forall>r. res = Inr r \<longrightarrow> r = fresh h"
    by blast
  have ne: "df \<noteq> fresh h" using old [of df] assms(1) by simp
  have "frames h' df = Some T" using keep ne assms(1) by simp
  moreover have "\<forall>a. frames h a \<noteq> None \<longrightarrow> frames h' a = frames h a"
    using keep old by blast
  moreover have "\<forall>r. res = Inr r \<longrightarrow> r \<noteq> df" using new ne by blast
  moreover have "columns_name T \<noteq> Some (LInt 0) \<and> columns_name T \<noteq> Some (LStr ''Null Count'')
              \<longrightarrow> (\<exists>r. res = Inr r)"
  proof
    assume "columns_name T \<noteq> Some (LInt 0) \<and> columns_name T \<noteq> Some (LStr ''Null Count'')"
    then have c: "columns_name T \<noteq> Some (LInt 0)" "columns_name T \<noteq> Some (LStr ''Null Count'')"
      by simp_all
    from assms c obtain R where "profile_nulls df h =
            (Inr (fresh h), h\<lparr>frames := (frames h)(fresh h \<mapsto> R), fresh := Suc (fresh h)\<rparr>)"
      by (rule profile_nulls_report)
    with run have "res = Inr (fresh h)" by simp
    then show "\<exists>r. res = Inr r" ..
  qed
  ultimately show ?thesis using run by blast
qed

text \<open>
  Claim C10, as amended. The result of \<^verbatim>\<open>profile_nulls\<close> depends only on the column labels,
  their order, the name of the column axis, the number of rows and which cells are null:
  two tables that agree on these get equal results, the same report or the same exception,
  whatever their other values, their row labels and the name of their row index are.
\<close>

theorem profile_nulls_mask:
  assumes "frames h d1 = Some T1" and "frames h d2 = Some T2" and "heap_ok h"
    and names: "map fst (columns T1) = map fst (columns T2)"
    and axis: "columns_name T1 = columns_name T2"
    and rows: "len T1 = len T2"
    and mask: "map (\<lambda>c. map isna_cell (snd c)) (columns T1)
             = map (\<lambda>c. map isna_cell (snd c)) (columns T2)"
  shows "profile_nulls d1 h = profile_nulls d2 h"
proof -
  have "sum_axis0 (isna T1) = sum_axis0 (isna T2)"
    using names axis mask by (rule null_counts_eq)
  then show ?thesis
    by (simp only: profile_nulls_reads [OF assms(1,3)] profile_nulls_reads [OF assms(2,3)] rows)
qed

lemma tickets_in_heap:
  "frames (heap_of [tickets_table, tickets_table']) 0 = Some tickets_table"
  "frames (heap_of [tickets_table, tickets_table']) 1 = Some tickets_table'"
  by (simp_all add: heap_of_def)

lemma wf_tickets_table: "wf_frame tickets_table"
  by (simp add: wf_frame_def tickets_table_def range_index_def)

lemma tickets_axis:
  "columns_name tickets_table \<noteq> Some (LInt 0)"
  "columns_name tickets_table \<noteq> Some (LStr ''Null Count'')"
  by (simp_all add: tickets_table_def)

text \<open>
  Scenario D: a table of two columns and no row. The report has two rows, each with the
  count \<open>0\<close> and not-a-number.
\<close>

theorem profile_nulls_pct_witness:
  "frames (heap_of [scenario_D_table]) 0 = Some scenario_D_table \<and>
   heap_ok (heap_of [scenario_D_table]) \<and> wf_frame scenario_D_table \<and>
   columns_name scenario_D_table \<noteq> Some (LInt 0) \<and>
   columns_name scenario_D_table \<noteq> Some (LStr ''Null Count'') \<and>
   len scenario_D_table = 0 \<and>
   (\<exists>r h' R counts pcts.
      profile_nulls 0 (heap_of [scenario_D_table]) = (Inr r, h') \<and> frames h' r = Some R \<and>
      map_of (columns R) (LStr ''Null Count'') = Some counts \<and>
      map_of (columns R) (LStr ''Null Pct'') = Some pcts \<and>
      length counts = len R \<and> length pcts = len R \<and>
      (\<forall>i<len R. \<exists>n. counts ! i = Some (IntV n) \<and>
         (if len scenario_D_table = 0 then n = 0 \<and> pcts ! i = Some (FloatV NaN)
          else pcts ! i = Some (FloatV (Finite (of_int n / of_nat (len scenario_D_table))))))) \<and>
   (\<exists>h'. profile_nulls 0 (heap_of [scenario_D_table]) = (Inr 1, h') \<and>
      frames h' 1 =
        Some \<lparr>index = [LInt 0, LInt 1], index_name = None,
              columns = [(LStr ''Column'', [Some (StrV ''A''), Some (StrV ''B'')]),
                         (LStr ''Null Count'', [Some (IntV 0), Some (IntV 0)]),
                         (LStr ''Null Pct'', [Some (FloatV NaN), Some (FloatV NaN)])],
              columns_name = None\<rparr>)"
proof -
  have a: "frames (heap_of [scenario_D_table]) 0 = Some scenario_D_table"
    by (simp add: heap_of_def)
  have b: "heap_ok (heap_of [scenario_D_table])"
    by (rule heap_ok_heap_of)
  have c: "wf_frame scenario_D_table"
    by (simp add: wf_frame_def scenario_D_table_def)
  have n: "columns_name scenario_D_table \<noteq> Some (LInt 0)"
    "columns_name scenario_D_table \<noteq> Some (LStr ''Null Count'')"
    by (simp_all add: scenario_D_table_def)
  have d: "len scenario_D_table = 0"
    by (simp add: len_def scenario_D_table_def)
  have e: "\<exists>h'. profile_nulls 0 (heap_of [scenario_D_table]) = (Inr 1, h') \<and>
      frames h' 1 =
        Some \<lparr>index = [LInt 0, LInt 1], index_name = None,
              columns = [(LStr ''Column'', [Some (StrV ''A''), Some (StrV ''B'')]),
                         (LStr ''Null Count'', [Some (IntV 0), Some (IntV 0)]),
                         (LStr ''Null Pct'', [Some (FloatV NaN), Some (FloatV NaN)])],
              columns_name = None\<rparr>"
    by (simp add: profile_nulls_eval [OF a b n])
       (simp add: heap_of_def scenario_D_table_def range_index_simps numeral_2_eq_2)
  from profile_nulls_pct [OF a b c n] a b c n d e show ?thesis
    by (intro conjI)
qed

text \<open>The hypotheses hold of a table of three columns and three rows, with nulls.\<close>

theorem profile_nulls_rows_witness:
  "frames (heap_of [tickets_table, tickets_table']) 0 = Some tickets_table \<and>
   heap_ok (heap_of [tickets_table, tickets_table']) \<and> wf_frame tickets_table \<and>
   columns_name tickets_table \<noteq> Some (LInt 0) \<and>
   columns_name tickets_table \<noteq> Some (LStr ''Null Count'') \<and>
   (\<exists>r h' R counts.
      profile_nulls 0 (heap_of [tickets_table, tickets_table']) = (Inr r, h') \<and>
      frames h' r = Some R \<and> wf_frame R \<and> len R = length (columns tickets_table) \<and>
      map_of (columns R) (LStr ''Null Count'') = Some counts \<and>
      (\<forall>j<length (columns tickets_table).
         \<exists>n. counts ! j = Some (IntV n) \<and> 0 \<le> n \<and> n \<le> int (len tickets_table) \<and>
              n = int (card {i. i < len tickets_table \<and>
                                isna_cell (snd (columns tickets_table ! j) ! i)})) \<and>
      (columns_name tickets_table \<noteq> Some (LStr ''Null Pct'') \<longrightarrow>
         (\<exists>names. columns R ! 0 =
             (case columns_name tickets_table of
                None \<Rightarrow> LStr ''Column''
              | Some m \<Rightarrow> if m = LStr ''index'' then LStr ''Column'' else m, names) \<and>
            (\<forall>j<length (columns tickets_table).
               names ! j = cell_of_label (fst (columns tickets_table ! j))))) \<and>
      (columns_name tickets_table = None \<longrightarrow>
         (\<exists>names. map_of (columns R) (LStr ''Column'') = Some names \<and>
            (\<forall>j<length (columns tickets_table).
               names ! j = cell_of_label (fst (columns tickets_table ! j)))))) \<and>
   (\<exists>h'. profile_nulls 0 (heap_of [tickets_table, tickets_table']) = (Inr 2, h') \<and>
      frames h' 2 =
        Some \<lparr>index = [LInt 0, LInt 1, LInt 2], index_name = None,
              columns =
                [(LStr ''Column'',
                    [Some (StrV ''OBJECTID''), Some (StrV ''VIOFINE''), Some (StrV ''ADDRESS'')]),
                 (LStr ''Null Count'', [Some (IntV 0), Some (IntV 1), Some (IntV 2)]),
                 (LStr ''Null Pct'',
                    [Some (FloatV (Finite 0)), Some (FloatV (Finite (1 / 3))),
                     Some (FloatV (Finite (2 / 3)))])],
              columns_name = None\<rparr>)"
proof -
  note a = tickets_in_heap(1)
  have b: "heap_ok (heap_of [tickets_table, tickets_table'])"
    by (rule heap_ok_heap_of)
  note c = wf_tickets_table
  note n = tickets_axis
  have e: "\<exists>h'. profile_nulls 0 (heap_of [tickets_table, tickets_table']) = (Inr 2, h') \<and>
      frames h' 2 =
        Some \<lparr>index = [LInt 0, LInt 1, LInt 2], index_name = None,
              columns =
                [(LStr ''Column'',
                    [Some (StrV ''OBJECTID''), Some (StrV ''VIOFINE''), Some (StrV ''ADDRESS'')]),
                 (LStr ''Null Count'', [Some (IntV 0), Some (IntV 1), Some (IntV 2)]),
                 (LStr ''Null Pct'',
                    [Some (FloatV (Finite 0)), Some (FloatV (Finite (1 / 3))),
                     Some (FloatV (Finite (2 / 3)))])],
              columns_name = None\<rparr>"
    by (simp add: profile_nulls_eval [OF a b n])
       (simp add: heap_of_def tickets_table_def range_index_simps numeral_3_eq_3)
  from profile_nulls_rows [OF a b c n] a b c n e show ?thesis
    by (intro conjI)
qed

text \<open>The hypotheses hold of a concrete store and table, where the theorem applies.\<close>

theorem profile_nulls_twice_witness:
  "frames (heap_of [tickets_table, tickets_table']) 0 = Some tickets_table \<and>
   heap_ok (heap_of [tickets_table, tickets_table']) \<and>
   columns_name tickets_table \<noteq> Some (LInt 0) \<and>
   columns_name tickets_table \<noteq> Some (LStr ''Null Count'') \<and>
   (\<exists>r1 h1 r2 h2 R.
      profile_nulls 0 (heap_of [tickets_table, tickets_table']) = (Inr r1, h1) \<and>
      profile_nulls 0 h1 = (Inr r2, h2) \<and>
      r1 \<noteq> r2 \<and> frames h2 r1 = Some R \<and> frames h2 r2 = Some R)"
proof -
  note a = tickets_in_heap(1)
  have b: "heap_ok (heap_of [tickets_table, tickets_table'])"
    by (rule heap_ok_heap_of)
  note n = tickets_axis
  from profile_nulls_twice [OF a b n] a b n show ?thesis
    by (intro conjI)
qed

text \<open>The hypotheses hold of a store with two tables.\<close>

theorem profile_nulls_frame_witness:
  "frames (heap_of [tickets_table, tickets_table']) 0 = Some tickets_table \<and>
   heap_ok (heap_of [tickets_table, tickets_table']) \<and>
   (\<exists>res h'. profile_nulls 0 (heap_of [tickets_table, tickets_table']) = (res, h') \<and>
      frames h' 0 = Some tickets_table \<and>
      (\<forall>a. frames (heap_of [tickets_table, tickets_table']) a \<noteq> None \<longrightarrow>
           frames h' a = frames (heap_of [tickets_table, tickets_table']) a) \<and>
      (\<forall>r. res = Inr r \<longrightarrow> r \<noteq> 0) \<and>
      (columns_name tickets_table \<noteq> Some (LInt 0) \<and>
       columns_name tickets_table \<noteq> Some (LStr ''Null Count'') \<longrightarrow> (\<exists>r. res = Inr r)))"
proof -
  note a = tickets_in_heap(1)
  have b: "heap_ok (heap_of [tickets_table, tickets_table'])"
    by (rule heap_ok_heap_of)
  from profile_nulls_frame [OF a b] a b show ?thesis
    by (intro conjI)
qed

lemma named_in_heap:
  "frames (heap_of [tickets_table, named_tickets_table]) 0 = Some tickets_table"
  "frames (heap_of [tickets_table, named_tickets_table]) 1 = Some named_tickets_table"
  by (simp_all add: heap_of_def)

lemma named_axis:
  "columns_name named_tickets_table \<noteq> Some (LInt 0)"
  "columns_name named_tickets_table \<noteq> Some (LStr ''Null Count'')"
  by (simp_all add: named_tickets_table_def)

text \<open>
  Two tables with different values, different row labels and a differently named row
  index, and the same null cells.
\<close>

theorem profile_nulls_mask_witness:
  "frames (heap_of [tickets_table, tickets_table']) 0 = Some tickets_table \<and>
   frames (heap_of [tickets_table, tickets_table']) 1 = Some tickets_table' \<and>
   heap_ok (heap_of [tickets_table, tickets_table']) \<and>
   tickets_table \<noteq> tickets_table' \<and>
   map fst (columns tickets_table) = map fst (columns tickets_table') \<and>
   columns_name tickets_table = columns_name tickets_table' \<and>
   len tickets_table = len tickets_table' \<and>
   map (\<lambda>c. map isna_cell (snd c)) (columns tickets_table)
     = map (\<lambda>c. map isna_cell (snd c)) (columns tickets_table') \<and>
   profile_nulls 0 (heap_of [tickets_table, tickets_table'])
     = profile_nulls 1 (heap_of [tickets_table, tickets_table']) \<and>
   (\<exists>r h'. profile_nulls 1 (heap_of [tickets_table, tickets_table']) = (Inr r, h'))"
proof -
  note a = tickets_in_heap
  have b: "heap_ok (heap_of [tickets_table, tickets_table'])"
    by (rule heap_ok_heap_of)
  have d: "tickets_table \<noteq> tickets_table'"
    by (simp add: tickets_table_def tickets_table'_def)
  have n: "map fst (columns tickets_table) = map fst (columns tickets_table')"
    by (simp add: tickets_table_def tickets_table'_def)
  have x: "columns_name tickets_table = columns_name tickets_table'"
    by (simp add: tickets_table_def tickets_table'_def)
  have l: "len tickets_table = len tickets_table'"
    by (simp add: tickets_table_def tickets_table'_def len_def range_index_def)
  have m: "map (\<lambda>c. map isna_cell (snd c)) (columns tickets_table)
     = map (\<lambda>c. map isna_cell (snd c)) (columns tickets_table')"
    by (simp add: tickets_table_def tickets_table'_def)
  have e: "profile_nulls 0 (heap_of [tickets_table, tickets_table'])
     = profile_nulls 1 (heap_of [tickets_table, tickets_table'])"
    using a b n x l m by (rule profile_nulls_mask)
  have r: "\<exists>r h'. profile_nulls 1 (heap_of [tickets_table, tickets_table']) = (Inr r, h')"
    unfolding e [symmetric] by (simp add: profile_nulls_eval [OF a(1) b tickets_axis])
  from a b d n x l m e r show ?thesis
    by (intro conjI)
qed

text \<open>
  Claim C10 as stated lets the report depend on the column names, their order, the number
  of rows and the nullness of the cells only. Two tables with the same row index and the
  very same columns, one with the column axis named \<^verbatim>\<open>cols\<close>, get different reports: the
  first column of the one is labelled \<^verbatim>\<open>Column\<close>, of the other \<^verbatim>\<open>cols\<close>.
\<close>

theorem profile_nulls_axis_name_counterexample:
  "frames (heap_of [tickets_table, named_tickets_table]) 0 = Some tickets_table \<and>
   frames (heap_of [tickets_table, named_tickets_table]) 1 = Some named_tickets_table \<and>
   heap_ok (heap_of [tickets_table, named_tickets_table]) \<and>
   index tickets_table = index named_tickets_table \<and>
   columns tickets_table = columns named_tickets_table \<and>
   columns_name tickets_table = None \<and>
   columns_name named_tickets_table = Some (LStr ''cols'') \<and>
   (\<exists>h1 h2 R1 R2.
      profile_nulls 0 (heap_of [tickets_table, named_tickets_table]) = (Inr 2, h1) \<and>
      frames h1 2 = Some R1 \<and>
      profile_nulls 1 (heap_of [tickets_table, named_tickets_table]) = (Inr 2, h2) \<and>
      frames h2 2 = Some R2 \<and>
      fst (columns R1 ! 0) = LStr ''Column'' \<and>
      fst (columns R2 ! 0) = LStr ''cols'' \<and>
      R1 \<noteq> R2)"
proof -
  let ?H = "heap_of [tickets_table, named_tickets_table]"
  note a = named_in_heap
  have b: "heap_ok ?H"
    by (rule heap_ok_heap_of)
  have i: "index tickets_table = index named_tickets_table"
    and c: "columns tickets_table = columns named_tickets_table"
    and n1: "columns_name tickets_table = None"
    and n2: "columns_name named_tickets_table = Some (LStr ''cols'')"
    by (simp_all add: named_tickets_table_def tickets_table_def)
  have fr: "fresh ?H = 2" by (simp add: heap_of_def)
  from a(1) b tickets_axis obtain R1 where
    r1: "profile_nulls 0 ?H = (Inr (fresh ?H), ?H\<lparr>frames := (frames ?H)(fresh ?H \<mapsto> R1), fresh := Suc (fresh ?H)\<rparr>)"
    and f1: "columns_name tickets_table \<noteq> Some (LStr ''Null Pct'') \<longrightarrow>
           columns R1 ! 0 =
             (case columns_name tickets_table of
                None \<Rightarrow> LStr ''Column''
              | Some m \<Rightarrow> if m = LStr ''index'' then LStr ''Column'' else m,
              map (\<lambda>c. cell_of_label (fst c)) (columns tickets_table))"
    by (rule profile_nulls_report)
  from a(2) b named_axis obtain R2 where
    r2: "profile_nulls 1 ?H = (Inr (fresh ?H), ?H\<lparr>frames := (frames ?H)(fresh ?H \<mapsto> R2), fresh := Suc (fresh ?H)\<rparr>)"
    and f2: "columns_name named_tickets_table \<noteq> Some (LStr ''Null Pct'') \<longrightarrow>
           columns R2 ! 0 =
             (case columns_name named_tickets_table of
                None \<Rightarrow> LStr ''Column''
              | Some m \<Rightarrow> if m = LStr ''index'' then LStr ''Column'' else m,
              map (\<lambda>c. cell_of_label (fst c)) (columns named_tickets_table))"
    by (rule profile_nulls_report)
  have g1: "fst (columns R1 ! 0) = LStr ''Column''" using f1 by (simp add: n1)
  have g2: "fst (columns R2 ! 0) = LStr ''cols''" using f2 by (simp add: n2)
  from g1 g2 have ne: "R1 \<noteq> R2" by auto
  have s1: "frames (?H\<lparr>frames := (frames ?H)(fresh ?H \<mapsto> R1), fresh := Suc (fresh ?H)\<rparr>) 2 = Some R1"
    by (simp add: fr)
  have s2: "frames (?H\<lparr>frames := (frames ?H)(fresh ?H \<mapsto> R2), fresh := Suc (fresh ?H)\<rparr>) 2 = Some R2"
    by (simp add: fr)
  have e: "\<exists>h1 h2 R1 R2.
      profile_nulls 0 ?H = (Inr 2, h1) \<and> frames h1 2 = Some R1 \<and>
      profile_nulls 1 ?H = (Inr 2, h2) \<and> frames h2 2 = Some R2 \<and>
      fst (columns R1 ! 0) = LStr ''Column'' \<and>
      fst (columns R2 ! 0) = LStr ''cols'' \<and>
      R1 \<noteq> R2"
    using r1 r2 s1 s2 g1 g2 ne unfolding fr by blast
  from a b i c n1 n2 e show ?thesis
    by (intro conjI)
qed

section \<open>Properties of the loaders\<close>

lemma sequence_eq_Inr: "(sequence xs = Inr vs) = (xs = map Inr vs)"
proof (induction xs arbitrary: vs)
  case Nil
  show ?case by auto
next
  case (Cons x xs)
  show ?case
  proof (cases x)
    case (Inl e)
    then show ?thesis by (cases vs) auto
  next
    case (Inr v)
    show ?thesis
    proof (cases "sequence xs")
      case (Inl e)
      with Cons Inr show ?thesis by (cases vs) auto
    next
      case r: (Inr ws)
      with Cons [of ws] have "xs = map Inr ws" by simp
      with r Inr show ?thesis by (cases vs) auto
    qed
  qed
qed

lemma sequence_map_on:
  assumes "\<And>x. x \<in> set xs \<Longrightarrow> f x = Inr (g x)"
  shows "sequence (map f xs) = Inr (map g xs)"
proof -
  have "map f xs = map Inr (map g xs)" using assms by simp
  then show ?thesis by (simp only: sequence_eq_Inr)
qed

lemma sequence_Inl:
  assumes "Inl e \<in> set xs"
  shows "\<exists>e'. sequence xs = Inl e'"
proof (cases "sequence xs")
  case (Inl e')
  then show ?thesis by blast
next
  case (Inr vs)
  then have "xs = map Inr vs" by (simp only: sequence_eq_Inr)
  with assms show ?thesis by auto
qed

lemma usecols_simp:
  "map fst dtypes @ datetime_cols =
     [''X'', ''Y'', ''OBJECTID'', ''ADDRESS'', ''LICSTATEPROV'', ''VIODESCRIPTION'', ''VIOFINE'',
      ''VOIDSTATUS'', ''ISSUEDATE'', ''ISSUETIME'']"
  by (simp add: dtypes_def datetime_cols_def)

lemma selected_iff:
  "j \<in> set (selected header usecols) \<longleftrightarrow>
     j < length header \<and> header ! j \<in> set usecols \<and> header ! j \<notin> set (take j header)"
  by (auto simp: selected_def)

lemma distinct_selected: "distinct (selected header usecols)"
  by (simp add: selected_def)

lemma selected_names_inj: "inj_on (\<lambda>j. header ! j) (set (selected header usecols))"
proof (rule inj_onI)
  fix a b
  assume a: "a \<in> set (selected header usecols)" and b: "b \<in> set (selected header usecols)"
    and eq: "header ! a = header ! b"
  have first: "header ! k \<notin> set (take k header)" "k < length header"
    if "k \<in> set (selected header usecols)" for k
    using that by (simp_all add: selected_iff)
  have less: False if "i < k" "k < length header" "header ! i = header ! k"
      "header ! k \<notin> set (take k header)" for i k
  proof -
    have "take k header ! i = header ! i" using that(1) by simp
    moreover have "i < length (take k header)" using that(1,2) by simp
    ultimately have "header ! i \<in> set (take k header)" using nth_mem [of i "take k header"] by simp
    with that(3,4) show False by simp
  qed
  show "a = b"
  proof (rule ccontr)
    assume "a \<noteq> b"
    then consider "a < b" | "b < a" by linarith
    then show False
    proof cases
      case 1
      from less [OF 1 first(2) [OF b] eq first(1) [OF b]] show False .
    next
      case 2
      from less [OF 2 first(2) [OF a] eq [symmetric] first(1) [OF a]] show False .
    qed
  qed
qed

lemma selected_names_distinct: "distinct (map (\<lambda>j. header ! j) (selected header usecols))"
  by (simp add: distinct_map distinct_selected selected_names_inj)

lemma first_occurrence:
  assumes "c \<in> set header"
  shows "\<exists>j<length header. header ! j = c \<and> c \<notin> set (take j header)"
proof -
  from split_list_first [OF assms] obtain ys zs where h: "header = ys @ c # zs" and n: "c \<notin> set ys"
    by blast
  have "length ys < length header" using h by simp
  moreover have "header ! length ys = c" using h by simp
  moreover have "take (length ys) header = ys" using h by simp
  ultimately show ?thesis using n by (intro exI [of _ "length ys"]) simp
qed

lemma selected_names_set:
  "set (map (\<lambda>j. header ! j) (selected header usecols)) = set usecols \<inter> set header"
proof (intro equalityI subsetI)
  fix c assume "c \<in> set (map (\<lambda>j. header ! j) (selected header usecols))"
  then obtain j where j: "j \<in> set (selected header usecols)" and c: "c = header ! j"
    by (simp add: image_iff) blast
  from j have "j < length header" "header ! j \<in> set usecols"
    by (simp_all add: selected_iff)
  with c show "c \<in> set usecols \<inter> set header" by simp
next
  fix c assume c: "c \<in> set usecols \<inter> set header"
  then have "c \<in> set header" by simp
  from first_occurrence [OF this] obtain j
    where j: "j < length header" "header ! j = c" "c \<notin> set (take j header)"
    by blast
  with c have "j \<in> set (selected header usecols)" by (simp add: selected_iff)
  then have "header ! j \<in> (\<lambda>j. header ! j) ` set (selected header usecols)"
    by (rule imageI)
  with j(2) show "c \<in> set (map (\<lambda>j. header ! j) (selected header usecols))"
    by simp
qed

lemma length_keep_missing: "length (keep_missing texts cs) = length texts"
  by (simp add: keep_missing_def)

lemma keep_missing_None:
  assumes "i < length texts" and "texts ! i = None"
  shows "keep_missing texts cs ! i = None"
  using assms by (simp add: keep_missing_def)

lemma numeric_column_Inr:
  assumes "numeric_column P conv texts = Inr cs"
  shows "length cs = length texts"
    and "\<And>i. i < length texts \<Longrightarrow> texts ! i = None \<Longrightarrow> cs ! i = None"
    and "\<And>i s. i < length texts \<Longrightarrow> texts ! i = Some s \<Longrightarrow> is_number P s"
proof -
  from assms obtain cs0 where c0: "conv texts = Inr cs0"
    and all: "list_all (\<lambda>t. case t of None \<Rightarrow> True | Some s \<Rightarrow> is_number P s) texts"
    and cs: "cs = keep_missing texts cs0"
    by (auto simp: numeric_column_def split: sum.splits if_splits)
  from cs show "length cs = length texts" by (simp add: length_keep_missing)
  show "cs ! i = None" if "i < length texts" "texts ! i = None" for i
    using that cs by (simp add: keep_missing_None)
  show "is_number P s" if "i < length texts" "texts ! i = Some s" for i s
  proof -
    from that(1) have "texts ! i \<in> set texts" by simp
    with all have "case texts ! i of None \<Rightarrow> True | Some s \<Rightarrow> is_number P s"
      by (simp add: list_all_iff)
    with that(2) show ?thesis by simp
  qed
qed

lemma snd_read_csv: "snd (read_csv P p pd dt u w) = access p w"
  by (simp add: read_csv_def)

lemma read_csv_rectangular:
  assumes "files w p = Some (TextFile header rows)"
    and "rectangular header rows" and "set u \<subseteq> set header"
  shows "read_csv P p pd dt u w =
     (case sequence (map (read_column P pd dt header rows) (selected header u)) of
        Inl e \<Rightarrow> Inl e
      | Inr cols \<Rightarrow>
          Inr \<lparr>index = range_index (length rows), index_name = None,
               columns = map (\<lambda>(l, d, cs). (l, cs)) cols, columns_name = None,
               col_dtypes = map (\<lambda>(l, d, cs). d) cols\<rparr>,
      access p w)"
proof -
  have "list_all (\<lambda>c. c \<in> set header) u" using assms(3) by (auto simp: list_all_iff)
  with assms(1,2) show ?thesis by (simp add: read_csv_def)
qed

lemma load_csv_Inr:
  assumes "load P (CSVLoader p) w = (Inr T, w')" and "files w p = Some (TextFile header rows)"
    and "rectangular header rows"
  shows "\<exists>cols. map (read_column P datetime_cols dtypes header rows)
             (selected header (map fst dtypes @ datetime_cols)) = map Inr cols \<and>
           columns T = map (\<lambda>(l, d, cs). (l, cs)) cols"
proof -
  let ?u = "map fst dtypes @ datetime_cols"
  let ?xs = "map (read_column P datetime_cols dtypes header rows) (selected header ?u)"
  have ok: "list_all (\<lambda>c. c \<in> set header) ?u"
  proof (rule ccontr)
    assume "\<not> list_all (\<lambda>c. c \<in> set header) ?u"
    with assms(1,2) show False by (simp add: read_csv_def)
  qed
  from assms ok obtain cols where s: "sequence ?xs = Inr cols"
    and T: "columns T = map (\<lambda>(l, d, cs). (l, cs)) cols"
    by (cases "sequence ?xs") (auto simp: read_csv_def)
  from s have "?xs = map Inr cols" by (simp only: sequence_eq_Inr)
  with T show ?thesis by blast
qed

lemma read_column_label:
  assumes "read_column P pd dt header rows j = Inr c"
  shows "fst c = LStr (header ! j)"
  using assms by (auto simp: read_column_def split: sum.splits prod.splits)

lemma loaded_labels:
  assumes "load P (CSVLoader p) w = (Inr T, w')" and "files w p = Some (TextFile header rows)"
    and "rectangular header rows"
  shows "map fst (columns T) =
           map (\<lambda>j. LStr (header ! j)) (selected header (map fst dtypes @ datetime_cols))"
proof -
  let ?sel = "selected header (map fst dtypes @ datetime_cols)"
  from load_csv_Inr [OF assms] obtain cols where
    eq: "map (read_column P datetime_cols dtypes header rows) ?sel = map Inr cols"
    and T: "columns T = map (\<lambda>(l, d, cs). (l, cs)) cols"
    by blast
  show ?thesis
  proof (rule nth_equalityI)
    from arg_cong [OF eq, of length] T
    show len: "length (map fst (columns T)) = length (map (\<lambda>j. LStr (header ! j)) ?sel)"
      by simp
    fix k assume "k < length (map fst (columns T))"
    with len T have k: "k < length ?sel" "k < length cols" by simp_all
    from arg_cong [OF eq, of "\<lambda>xs. xs ! k"] k
    have "read_column P datetime_cols dtypes header rows (?sel ! k) = Inr (cols ! k)"
      by simp
    then have "fst (cols ! k) = LStr (header ! (?sel ! k))"
      by (rule read_column_label)
    with k T show "map fst (columns T) ! k = map (\<lambda>j. LStr (header ! j)) ?sel ! k"
      by (simp add: case_prod_unfold)
  qed
qed

lemma loaded_labels_distinct:
  assumes "load P (CSVLoader p) w = (Inr T, w')" and "files w p = Some (TextFile header rows)"
    and "rectangular header rows"
  shows "distinct (map fst (columns T))"
proof -
  let ?sel = "selected header (map fst dtypes @ datetime_cols)"
  have "map (\<lambda>j. LStr (header ! j)) ?sel = map LStr (map (\<lambda>j. header ! j) ?sel)"
    by simp
  moreover have "distinct (map LStr (map (\<lambda>j. header ! j) ?sel))"
    using selected_names_distinct [of header "map fst dtypes @ datetime_cols"]
    by (simp only: distinct_map) (simp add: inj_on_def)
  ultimately show ?thesis by (simp only: loaded_labels [OF assms])
qed

lemma numeric_dtype:
  assumes "c \<in> {''X'', ''Y'', ''OBJECTID'', ''VIOFINE''}"
  shows "c \<notin> set datetime_cols"
    and "map_of dtypes c = Some (if c = ''OBJECTID'' then Int64 else Float64)"
    and "c \<in> set (map fst dtypes @ datetime_cols)"
  using assms by (auto simp: dtypes_def datetime_cols_def)

lemma read_numeric_column:
  assumes "header ! j \<in> {''X'', ''Y'', ''OBJECTID'', ''VIOFINE''}"
  shows "read_column P datetime_cols dtypes header rows j =
     (case numeric_column P (if header ! j = ''OBJECTID'' then to_int64 P else to_float64 P)
             (map (\<lambda>r. missing (r ! j)) rows) of
        Inl e \<Rightarrow> Inl e
      | Inr cs \<Rightarrow> Inr (LStr (header ! j),
                       if header ! j = ''OBJECTID'' then Int64Dtype else Float64Dtype, cs))"
  using numeric_dtype(1,2) [OF assms]
  by (simp add: read_column_def convert_column_def split: sum.splits)

lemma empty_is_na: "'''' \<in> set na_values"
  by (simp add: na_values_def)

lemma dtypes_kinds:
  "list_all (\<lambda>(n, d). n \<notin> set datetime_cols \<and>
       map_of section3_types n =
         Some (case d of Float64 \<Rightarrow> Float64Dtype | Int64 \<Rightarrow> Int64Dtype
                       | Str \<Rightarrow> ObjectDtype | Category \<Rightarrow> CategoricalDtype)) dtypes"
  by code_simp

lemma dates_kinds:
  "list_all (\<lambda>n. map_of section3_types n = Some Datetime64Dtype) datetime_cols"
  by code_simp

lemma dtype_kind:
  assumes "map_of dtypes name = Some d"
  shows "name \<notin> set datetime_cols"
    and "map_of section3_types name =
           Some (case d of Float64 \<Rightarrow> Float64Dtype | Int64 \<Rightarrow> Int64Dtype
                         | Str \<Rightarrow> ObjectDtype | Category \<Rightarrow> CategoricalDtype)"
proof -
  from map_of_SomeD [OF assms] have "(name, d) \<in> set dtypes" .
  with dtypes_kinds have "name \<notin> set datetime_cols \<and>
       map_of section3_types name =
         Some (case d of Float64 \<Rightarrow> Float64Dtype | Int64 \<Rightarrow> Int64Dtype
                       | Str \<Rightarrow> ObjectDtype | Category \<Rightarrow> CategoricalDtype)"
    unfolding list_all_iff by blast
  then show "name \<notin> set datetime_cols"
    and "map_of section3_types name =
           Some (case d of Float64 \<Rightarrow> Float64Dtype | Int64 \<Rightarrow> Int64Dtype
                         | Str \<Rightarrow> ObjectDtype | Category \<Rightarrow> CategoricalDtype)"
    by simp_all
qed

lemma date_kind:
  assumes "name \<in> set datetime_cols"
  shows "map_of section3_types name = Some Datetime64Dtype"
  using assms dates_kinds unfolding list_all_iff by blast

lemma read_column_valid:
  assumes u: "header ! j \<in> set (map fst dtypes @ datetime_cols)"
    and ok: "valid_column P (header ! j) (map (\<lambda>r. missing (r ! j)) rows)"
  shows "\<exists>d cs. read_column P datetime_cols dtypes header rows j = Inr (LStr (header ! j), d, cs) \<and>
           length cs = length rows \<and> map_of section3_types (header ! j) = Some d"
proof (cases "header ! j \<in> set datetime_cols")
  case True
  let ?texts = "map (\<lambda>r. missing (r ! j)) rows"
  obtain d cs where dc: "to_datetime P (map_of dtypes (header ! j)) ?texts = (d, cs)"
    by (cases "to_datetime P (map_of dtypes (header ! j)) ?texts")
  with ok True have d: "d = Datetime64Dtype" by (simp add: valid_column_def)
  have "read_column P datetime_cols dtypes header rows j
          = Inr (LStr (header ! j), d, keep_missing ?texts cs)"
    using True dc by (simp add: read_column_def convert_column_def)
  moreover have "length (keep_missing ?texts cs) = length rows"
    by (simp add: length_keep_missing)
  moreover have "map_of section3_types (header ! j) = Some d"
    using True d by (simp only: date_kind)
  ultimately show ?thesis by blast
next
  case False
  with u have "header ! j \<in> fst ` set dtypes" by simp
  then have "map_of dtypes (header ! j) \<noteq> None"
    by (simp only: map_of_eq_None_iff not_not)
  then obtain a where a: "map_of dtypes (header ! j) = Some a" by blast
  let ?d = "case a of Float64 \<Rightarrow> Float64Dtype | Int64 \<Rightarrow> Int64Dtype
                    | Str \<Rightarrow> ObjectDtype | Category \<Rightarrow> CategoricalDtype"
  let ?texts = "map (\<lambda>r. missing (r ! j)) rows"
  have k: "map_of section3_types (header ! j) = Some ?d"
    using a by (rule dtype_kind(2))
  have "\<exists>cs. convert_column P datetime_cols dtypes (header ! j) ?texts = Inr (?d, cs) \<and>
          length cs = length rows"
  proof (cases a)
    case Float64
    with ok False a obtain cs0 where
      "list_all (\<lambda>t. case t of None \<Rightarrow> True | Some s \<Rightarrow> is_number P s) ?texts"
      "to_float64 P ?texts = Inr cs0"
      by (auto simp: valid_column_def split: sum.splits)
    then have "numeric_column P (to_float64 P) ?texts = Inr (keep_missing ?texts cs0)"
      by (simp add: numeric_column_def)
    with False a Float64 show ?thesis
      by (simp add: convert_column_def length_keep_missing)
  next
    case Int64
    with ok False a obtain cs0 where
      "list_all (\<lambda>t. case t of None \<Rightarrow> True | Some s \<Rightarrow> is_number P s) ?texts"
      "to_int64 P ?texts = Inr cs0"
      by (auto simp: valid_column_def split: sum.splits)
    then have "numeric_column P (to_int64 P) ?texts = Inr (keep_missing ?texts cs0)"
      by (simp add: numeric_column_def)
    with False a Int64 show ?thesis
      by (simp add: convert_column_def length_keep_missing)
  next
    case Str
    with False a show ?thesis by (simp add: convert_column_def)
  next
    case Category
    with False a show ?thesis by (simp add: convert_column_def length_keep_missing)
  qed
  then obtain cs where "convert_column P datetime_cols dtypes (header ! j) ?texts = Inr (?d, cs)"
    "length cs = length rows" by blast
  then have "read_column P datetime_cols dtypes header rows j = Inr (LStr (header ! j), ?d, cs) \<and>
     length cs = length rows"
    by (simp add: read_column_def)
  with k show ?thesis by blast
qed

lemma usecols_distinct: "distinct (map fst dtypes @ datetime_cols)"
  by code_simp

lemma count_named:
  assumes "distinct ns" and "set A \<subseteq> set ns" and "distinct A"
  shows "length (filter (\<lambda>n. n \<in> set A) ns) = length A"
proof -
  have "length (filter (\<lambda>n. n \<in> set A) ns) = card ({n. n \<in> set A} \<inter> set ns)"
    using assms(1) by (rule distinct_length_filter)
  also have "{n. n \<in> set A} \<inter> set ns = set A" using assms(2) by auto
  also have "card (set A) = length A" using assms(3) by (rule distinct_card)
  finally show ?thesis .
qed

text \<open>A valid file that has the columns loads; the columns of the table, one by one.\<close>

lemma load_valid:
  assumes on_disk: "files w p = Some (TextFile header rows)"
    and present: "set (map fst dtypes @ datetime_cols) \<subseteq> set header"
    and valid: "valid_file P header rows"
  shows "\<exists>cols.
     load P (CSVLoader p) w =
       (Inr \<lparr>index = range_index (length rows), index_name = None,
            columns = map (\<lambda>(l, d, cs). (l, cs)) cols, columns_name = None,
            col_dtypes = map (\<lambda>(l, d, cs). d) cols\<rparr>, access p w) \<and>
     length cols = length (selected header (map fst dtypes @ datetime_cols)) \<and>
     (\<forall>k<length cols.
        \<exists>d cs. cols ! k = (LStr (header ! (selected header (map fst dtypes @ datetime_cols) ! k)), d, cs) \<and>
          length cs = length rows \<and>
          map_of section3_types (header ! (selected header (map fst dtypes @ datetime_cols) ! k)) = Some d)"
proof -
  let ?u = "map fst dtypes @ datetime_cols"
  let ?sel = "selected header ?u"
  let ?rc = "read_column P datetime_cols dtypes header rows"
  from valid have rect: "rectangular header rows"
    and vc: "\<And>j. j \<in> set ?sel \<Longrightarrow> valid_column P (header ! j) (map (\<lambda>r. missing (r ! j)) rows)"
    by (simp_all add: valid_file_def list_all_iff)
  define g where "g j = projr (?rc j)" for j
  have col: "\<exists>d cs. ?rc j = Inr (LStr (header ! j), d, cs) \<and> g j = (LStr (header ! j), d, cs) \<and>
                length cs = length rows \<and> map_of section3_types (header ! j) = Some d"
    if j: "j \<in> set ?sel" for j
  proof -
    from j have ju: "header ! j \<in> set ?u" by (simp only: selected_iff)
    from read_column_valid [OF ju vc [OF j]] obtain d cs where
      "?rc j = Inr (LStr (header ! j), d, cs)" "length cs = length rows"
      "map_of section3_types (header ! j) = Some d"
      by blast
    then show ?thesis by (auto simp: g_def)
  qed
  have "?rc j = Inr (g j)" if "j \<in> set ?sel" for j
    using col [OF that] by auto
  then have seq: "sequence (map ?rc ?sel) = Inr (map g ?sel)"
    by (rule sequence_map_on)
  have run: "load P (CSVLoader p) w =
       (Inr \<lparr>index = range_index (length rows), index_name = None,
            columns = map (\<lambda>(l, d, cs). (l, cs)) (map g ?sel), columns_name = None,
            col_dtypes = map (\<lambda>(l, d, cs). d) (map g ?sel)\<rparr>, access p w)"
    using read_csv_rectangular [OF on_disk rect present, of P datetime_cols dtypes] seq
    by simp
  have len: "length (map g ?sel) = length ?sel" by simp
  have each: "\<exists>d cs. map g ?sel ! k = (LStr (header ! (?sel ! k)), d, cs) \<and>
             length cs = length rows \<and> map_of section3_types (header ! (?sel ! k)) = Some d"
    if "k < length (map g ?sel)" for k
  proof -
    from that have k: "k < length ?sel" by simp
    then have "?sel ! k \<in> set ?sel" by simp
    from col [OF this] k show ?thesis by auto
  qed
  from each have "\<forall>k<length (map g ?sel).
        \<exists>d cs. map g ?sel ! k = (LStr (header ! (?sel ! k)), d, cs) \<and>
          length cs = length rows \<and> map_of section3_types (header ! (?sel ! k)) = Some d"
    by blast
  with run len show ?thesis by (intro exI [of _ "map g ?sel"] conjI)
qed

lemma tickets_on_disk:
  "files example_world ''tickets.csv'' = Some (TextFile tickets_header tickets_records)"
  by (simp add: example_world_def example_files_def)

lemma tickets_valid: "valid_file example_pandas tickets_header tickets_records"
  by code_simp

lemma tickets_present:
  "list_all (\<lambda>c. c \<in> set tickets_header) (map fst dtypes @ datetime_cols)"
  by code_simp

lemma snd_load_csv: "snd (load P (CSVLoader p) w) = access p w"
  by (simp add: snd_read_csv)

lemma tickets_loaded_fst:
  "fst (load example_pandas (CSVLoader ''tickets.csv'') example_world) =
     Inr \<lparr>index = [LInt 0, LInt 1, LInt 2], index_name = None,
        columns =
          [(LStr ''OBJECTID'', [Some (IntV 1), Some (IntV 2), Some (IntV 3)]),
           (LStr ''X'', [Some (FloatV (Finite (- 173 / 2))), None, Some (FloatV (Finite (- 173 / 2)))]),
           (LStr ''Y'', [Some (FloatV (Finite (391 / 10))), None, Some (FloatV (Finite (391 / 10)))]),
           (LStr ''ADDRESS'', [Some (StrV ''MAIN ST''), None, Some (StrV ''ELM ST'')]),
           (LStr ''LICSTATEPROV'', [Some (StrV ''IN''), Some (StrV ''IN''), Some (StrV ''OH'')]),
           (LStr ''VIODESCRIPTION'',
            [Some (StrV ''EXPIRED METER''), Some (StrV ''NO PERMIT''), Some (StrV ''EXPIRED METER'')]),
           (LStr ''VIOFINE'', [Some (FloatV (Finite 10)), None, Some (FloatV (Finite 20))]),
           (LStr ''VOIDSTATUS'', [Some (StrV ''N''), None, Some (StrV ''N'')]),
           (LStr ''ISSUEDATE'', [Some (TimestampV 18262), Some (TimestampV 18263), Some (TimestampV 18263)]),
           (LStr ''ISSUETIME'', [Some (TimestampV 510), None, Some (TimestampV 510)])],
        columns_name = None,
        col_dtypes =
          [Int64Dtype, Float64Dtype, Float64Dtype, ObjectDtype, CategoricalDtype,
           CategoricalDtype, Float64Dtype, CategoricalDtype, Datetime64Dtype, Datetime64Dtype]\<rparr>"
  by code_simp

lemma tickets_loaded:
  "load example_pandas (CSVLoader ''tickets.csv'') example_world =
     (Inr \<lparr>index = [LInt 0, LInt 1, LInt 2], index_name = None,
        columns =
          [(LStr ''OBJECTID'', [Some (IntV 1), Some (IntV 2), Some (IntV 3)]),
           (LStr ''X'', [Some (FloatV (Finite (- 173 / 2))), None, Some (FloatV (Finite (- 173 / 2)))]),
           (LStr ''Y'', [Some (FloatV (Finite (391 / 10))), None, Some (FloatV (Finite (391 / 10)))]),
           (LStr ''ADDRESS'', [Some (StrV ''MAIN ST''), None, Some (StrV ''ELM ST'')]),
           (LStr ''LICSTATEPROV'', [Some (StrV ''IN''), Some (StrV ''IN''), Some (StrV ''OH'')]),
           (LStr ''VIODESCRIPTION'',
            [Some (StrV ''EXPIRED METER''), Some (StrV ''NO PERMIT''), Some (StrV ''EXPIRED METER'')]),
           (LStr ''VIOFINE'', [Some (FloatV (Finite 10)), None, Some (FloatV (Finite 20))]),
           (LStr ''VOIDSTATUS'', [Some (StrV ''N''), None, Some (StrV ''N'')]),
           (LStr ''ISSUEDATE'', [Some (TimestampV 18262), Some (TimestampV 18263), Some (TimestampV 18263)]),
           (LStr ''ISSUETIME'', [Some (TimestampV 510), None, Some (TimestampV 510)])],
        columns_name = None,
        col_dtypes =
          [Int64Dtype, Float64Dtype, Float64Dtype, ObjectDtype, CategoricalDtype,
           CategoricalDtype, Float64Dtype, CategoricalDtype, Datetime64Dtype, Datetime64Dtype]\<rparr>,
      access ''tickets.csv'' example_world)"
  by (rule prod_eqI) (simp_all only: fst_conv snd_conv tickets_loaded_fst snd_load_csv)

lemma bad_fine_loaded:
  "load example_pandas (CSVLoader ''bad_fine.csv'') example_world =
     (Inl ValueError, access ''bad_fine.csv'' example_world)"
proof (rule prod_eqI)
  have "fst (load example_pandas (CSVLoader ''bad_fine.csv'') example_world) = Inl ValueError"
    by code_simp
  then show "fst (load example_pandas (CSVLoader ''bad_fine.csv'') example_world) =
     fst (Inl ValueError, access ''bad_fine.csv'' example_world)" by simp
  show "snd (load example_pandas (CSVLoader ''bad_fine.csv'') example_world) =
     snd (Inl ValueError, access ''bad_fine.csv'' example_world)"
    by (simp only: snd_conv snd_load_csv)
qed

text \<open>
  Claim C1, as amended. For every valid delimited-text file that has the required columns,
  \<^verbatim>\<open>CSVLoader.load\<close> reads the file once and returns a table of exactly ten columns: the
  eight data columns of the \<^verbatim>\<open>dtypes\<close> dictionary and the two date/time columns \<^verbatim>\<open>ISSUEDATE\<close>
  and \<^verbatim>\<open>ISSUETIME\<close>, each parsed on its own and each once, in the order of the file. Every
  other column of the file is ignored, the rows are numbered from 0, no axis has a name,
  and the dtype of each column is the type section 3 gives it.
\<close>

theorem load_columns:
  assumes on_disk: "files w p = Some (TextFile header rows)"
    and present: "set (map fst dtypes @ datetime_cols) \<subseteq> set header"
    and valid: "valid_file P header rows"
  shows "\<exists>T. load P (CSVLoader p) w = (Inr T, access p w) \<and>
           wf_frame T \<and> len T = length rows \<and> index T = range_index (length rows) \<and>
           index_name T = None \<and> columns_name T = None \<and>
           map fst (columns T) =
             map (\<lambda>j. LStr (header ! j)) (selected header (map fst dtypes @ datetime_cols)) \<and>
           distinct (map fst (columns T)) \<and>
           set (map fst (columns T)) = LStr ` set (map fst dtypes @ datetime_cols) \<and>
           length (filter (\<lambda>c. fst c \<in> LStr ` set (map fst dtypes)) (columns T)) = 8 \<and>
           length (filter (\<lambda>c. fst c \<in> LStr ` set datetime_cols) (columns T)) = 2 \<and>
           length (columns T) = 10 \<and> length (col_dtypes T) = 10 \<and>
           (\<forall>k<10. \<exists>name. fst (columns T ! k) = LStr name \<and>
                      map_of section3_types name = Some (col_dtypes T ! k))"
proof -
  let ?u = "map fst dtypes @ datetime_cols"
  let ?sel = "selected header ?u"
  let ?names = "map (\<lambda>j. header ! j) ?sel"
  from load_valid [OF on_disk present valid] obtain cols where
    run0: "load P (CSVLoader p) w =
       (Inr \<lparr>index = range_index (length rows), index_name = None,
            columns = map (\<lambda>(l, d, cs). (l, cs)) cols, columns_name = None,
            col_dtypes = map (\<lambda>(l, d, cs). d) cols\<rparr>, access p w)"
    and lc: "length cols = length ?sel"
    and each0: "\<forall>k<length cols.
           \<exists>d cs. cols ! k = (LStr (header ! (?sel ! k)), d, cs) \<and> length cs = length rows \<and>
             map_of section3_types (header ! (?sel ! k)) = Some d"
    by (elim exE conjE)
  from each0 have each: "\<exists>d cs. cols ! k = (LStr (header ! (?sel ! k)), d, cs) \<and>
       length cs = length rows \<and> map_of section3_types (header ! (?sel ! k)) = Some d"
    if "k < length cols" for k
    using that by blast
  define T :: table where
    "T = \<lparr>index = range_index (length rows), index_name = None,
          columns = map (\<lambda>(l, d, cs). (l, cs)) cols, columns_name = None,
          col_dtypes = map (\<lambda>(l, d, cs). d) cols\<rparr>"
  have run: "load P (CSVLoader p) w = (Inr T, access p w)"
    using run0 by (simp only: T_def)
  have colT: "columns T = map (\<lambda>(l, d, cs). (l, cs)) cols"
    and dtT: "col_dtypes T = map (\<lambda>(l, d, cs). d) cols"
    and idx: "index T = range_index (length rows)"
    and inm: "index_name T = None" and cnm: "columns_name T = None"
    by (simp_all add: T_def)
  have wf: "wf_frame T"
    unfolding wf_frame_def list_all_iff
  proof
    fix c assume "c \<in> set (columns T)"
    then obtain k where k: "k < length cols" and c: "c = (\<lambda>(l, d, cs). (l, cs)) (cols ! k)"
      by (auto simp: colT in_set_conv_nth)
    from each [OF k] c show "length (snd c) = length (index T)"
      by (auto simp: idx range_index_def)
  qed
  have len: "len T = length rows"
    by (simp add: len_def idx range_index_def)
  have labels': "map fst (columns T) = map (\<lambda>j. LStr (header ! j)) ?sel"
  proof (rule nth_equalityI)
    show "length (map fst (columns T)) = length (map (\<lambda>j. LStr (header ! j)) ?sel)"
      by (simp add: colT lc)
    fix k assume "k < length (map fst (columns T))"
    then have k: "k < length cols" by (simp add: colT)
    from each [OF k] k lc
    show "map fst (columns T) ! k = map (\<lambda>j. LStr (header ! j)) ?sel ! k"
      by (auto simp: colT)
  qed
  then have labels: "map fst (columns T) = map LStr ?names" by simp
  have dn: "distinct ?names" by (rule selected_names_distinct)
  have sn: "set ?names = set ?u"
    using present selected_names_set [of header ?u] by auto
  have dl: "distinct (map fst (columns T))"
    unfolding labels using dn by (simp only: distinct_map) (simp add: inj_on_def)
  have sl: "set (map fst (columns T)) = LStr ` set ?u"
    unfolding labels using sn by (simp only: set_map)
  have count: "length (filter (\<lambda>c. fst c \<in> LStr ` set A) (columns T)) = length A"
    if "set A \<subseteq> set ?u" "distinct A" for A
  proof -
    have "length (filter (\<lambda>c. fst c \<in> LStr ` set A) (columns T))
        = length (filter (\<lambda>l. l \<in> LStr ` set A) (map fst (columns T)))"
      by (simp add: filter_map comp_def)
    also have "\<dots> = length (filter (\<lambda>n. n \<in> set A) ?names)"
      unfolding labels by (simp add: filter_map comp_def image_iff)
    also have "\<dots> = length A"
      using dn that(1) [folded sn] that(2) by (rule count_named)
    finally show ?thesis .
  qed
  have c8: "length (filter (\<lambda>c. fst c \<in> LStr ` set (map fst dtypes)) (columns T)) = 8"
  proof -
    have "set (map fst dtypes) \<subseteq> set ?u" by simp
    moreover have "distinct (map fst dtypes)" using usecols_distinct by simp
    ultimately have "length (filter (\<lambda>c. fst c \<in> LStr ` set (map fst dtypes)) (columns T))
        = length (map fst dtypes)" by (rule count)
    then show ?thesis by (simp add: dtypes_def)
  qed
  have c2: "length (filter (\<lambda>c. fst c \<in> LStr ` set datetime_cols) (columns T)) = 2"
  proof -
    have "set datetime_cols \<subseteq> set ?u" by simp
    moreover have "distinct datetime_cols" using usecols_distinct by simp
    ultimately have "length (filter (\<lambda>c. fst c \<in> LStr ` set datetime_cols) (columns T))
        = length datetime_cols" by (rule count)
    then show ?thesis by (simp add: datetime_cols_def)
  qed
  have c10: "length (columns T) = 10"
  proof -
    have "length (columns T) = length ?names" by (simp add: colT lc)
    also have "\<dots> = card (set ?names)" using dn by (simp only: distinct_card)
    also have "\<dots> = length ?u" unfolding sn using usecols_distinct by (rule distinct_card)
    also have "\<dots> = 10" by (simp add: dtypes_def datetime_cols_def)
    finally show ?thesis .
  qed
  have d10: "length (col_dtypes T) = 10"
    using c10 by (simp add: colT dtT)
  have typed: "\<forall>k<10. \<exists>name. fst (columns T ! k) = LStr name \<and>
                      map_of section3_types name = Some (col_dtypes T ! k)"
  proof (intro allI impI)
    fix k :: nat assume "k < 10"
    with c10 have k: "k < length cols" by (simp add: colT)
    from each [OF k] k
    show "\<exists>name. fst (columns T ! k) = LStr name \<and>
                 map_of section3_types name = Some (col_dtypes T ! k)"
      by (auto simp: colT dtT)
  qed
  from run wf len idx inm cnm labels' dl sl c8 c2 c10 d10 typed show ?thesis
    by (intro exI [of _ T] conjI)
qed

text \<open>
  The hypotheses hold of the example file, which has an eleventh column \<^verbatim>\<open>OFFICER\<close> and
  a record with empty fields.
\<close>

theorem load_columns_witness:
  "files example_world ''tickets.csv'' = Some (TextFile tickets_header tickets_records) \<and>
   list_all (\<lambda>c. c \<in> set tickets_header) (map fst dtypes @ datetime_cols) \<and>
   valid_file example_pandas tickets_header tickets_records \<and>
   (\<exists>T. load example_pandas (CSVLoader ''tickets.csv'') example_world =
           (Inr T, access ''tickets.csv'' example_world) \<and>
        wf_frame T \<and> len T = length tickets_records \<and>
        index T = range_index (length tickets_records) \<and>
        index_name T = None \<and> columns_name T = None \<and>
        map fst (columns T) =
          map (\<lambda>j. LStr (tickets_header ! j))
            (selected tickets_header (map fst dtypes @ datetime_cols)) \<and>
        distinct (map fst (columns T)) \<and>
        set (map fst (columns T)) = LStr ` set (map fst dtypes @ datetime_cols) \<and>
        length (filter (\<lambda>c. fst c \<in> LStr ` set (map fst dtypes)) (columns T)) = 8 \<and>
        length (filter (\<lambda>c. fst c \<in> LStr ` set datetime_cols) (columns T)) = 2 \<and>
        length (columns T) = 10 \<and> length (col_dtypes T) = 10 \<and>
        (\<forall>k<10. \<exists>name. fst (columns T ! k) = LStr name \<and>
                   map_of section3_types name = Some (col_dtypes T ! k)))"
proof -
  note a = tickets_on_disk
  have b: "set (map fst dtypes @ datetime_cols) \<subseteq> set tickets_header"
    using tickets_present by (auto simp: list_all_iff)
  note c = tickets_valid
  have d: "\<exists>T. load example_pandas (CSVLoader ''tickets.csv'') example_world =
           (Inr T, access ''tickets.csv'' example_world) \<and>
        wf_frame T \<and> len T = length tickets_records \<and>
        index T = range_index (length tickets_records) \<and>
        index_name T = None \<and> columns_name T = None \<and>
        map fst (columns T) =
          map (\<lambda>j. LStr (tickets_header ! j))
            (selected tickets_header (map fst dtypes @ datetime_cols)) \<and>
        distinct (map fst (columns T)) \<and>
        set (map fst (columns T)) = LStr ` set (map fst dtypes @ datetime_cols) \<and>
        length (filter (\<lambda>c. fst c \<in> LStr ` set (map fst dtypes)) (columns T)) = 8 \<and>
        length (filter (\<lambda>c. fst c \<in> LStr ` set datetime_cols) (columns T)) = 2 \<and>
        length (columns T) = 10 \<and> length (col_dtypes T) = 10 \<and>
        (\<forall>k<10. \<exists>name. fst (columns T ! k) = LStr name \<and>
                   map_of section3_types name = Some (col_dtypes T ! k))"
    using a b c by (rule load_columns)
  from a tickets_present c d show ?thesis
    by (intro conjI)
qed

text \<open>
  Claim C1 as stated speaks of nine data columns and of a combined date/time column. The
  table loaded from the example file has eight columns besides \<^verbatim>\<open>ISSUEDATE\<close> and
  \<^verbatim>\<open>ISSUETIME\<close>, not nine, and keeps both of these.
\<close>

theorem load_nine_columns_counterexample:
  "(\<exists>T w'. load example_pandas (CSVLoader ''tickets.csv'') example_world = (Inr T, w') \<and>
        map fst (columns T) =
          [LStr ''OBJECTID'', LStr ''X'', LStr ''Y'', LStr ''ADDRESS'', LStr ''LICSTATEPROV'',
           LStr ''VIODESCRIPTION'', LStr ''VIOFINE'', LStr ''VOIDSTATUS'',
           LStr ''ISSUEDATE'', LStr ''ISSUETIME''] \<and>
        length (filter (\<lambda>c. fst c \<notin> LStr ` set datetime_cols) (columns T)) = 8) \<and>
   \<not> (\<exists>T w'. load example_pandas (CSVLoader ''tickets.csv'') example_world = (Inr T, w') \<and>
        length (filter (\<lambda>c. fst c \<notin> LStr ` set datetime_cols) (columns T)) = 9)"
  by (simp only: tickets_loaded) (simp add: datetime_cols_def)

text \<open>
  Claim C2, as amended. Take a file whose records have as many fields as its header, a
  nullable numeric column \<open>c\<close> (\<^verbatim>\<open>X\<close>, \<^verbatim>\<open>Y\<close>, \<^verbatim>\<open>OBJECTID\<close>, \<^verbatim>\<open>VIOFINE\<close>) at position \<open>j\<close> of the header
  and a record \<open>i\<close>. Whenever \<^verbatim>\<open>CSVLoader.load\<close> returns a table, the cell is null if the
  field is empty or another missing-value marker; the load does return a table when the
  file is valid and has the required columns; and a field that is neither a marker nor a
  number is not stored as a null: the load fails.
\<close>

theorem load_numeric_cell:
  assumes on_disk: "files w p = Some (TextFile header rows)"
    and rect: "rectangular header rows"
    and c: "c \<in> {''X'', ''Y'', ''OBJECTID'', ''VIOFINE''}"
    and j: "j < length header" "header ! j = c" "c \<notin> set (take j header)"
    and i: "i < length rows"
  shows
    "(\<forall>T w'. load P (CSVLoader p) w = (Inr T, w') \<longrightarrow>
        (\<exists>cs. map_of (columns T) (LStr c) = Some cs \<and> length cs = length rows \<and>
              (rows ! i ! j = '''' \<or> rows ! i ! j \<in> set na_values \<longrightarrow> cs ! i = None))) \<and>
     (set (map fst dtypes @ datetime_cols) \<subseteq> set header \<and> valid_file P header rows \<longrightarrow>
        (\<exists>T. load P (CSVLoader p) w = (Inr T, access p w))) \<and>
     (rows ! i ! j \<notin> set na_values \<and> \<not> is_number P (rows ! i ! j) \<longrightarrow>
        (\<exists>e. load P (CSVLoader p) w = (Inl e, access p w)))"
proof -
  let ?u = "map fst dtypes @ datetime_cols"
  let ?sel = "selected header ?u"
  let ?rc = "read_column P datetime_cols dtypes header rows"
  let ?conv = "if c = ''OBJECTID'' then to_int64 P else to_float64 P"
  let ?d = "if c = ''OBJECTID'' then Int64Dtype else Float64Dtype"
  let ?texts = "map (\<lambda>r. missing (r ! j)) rows"
  let ?s = "rows ! i ! j"
  have hc: "header ! j \<in> {''X'', ''Y'', ''OBJECTID'', ''VIOFINE''}" using c j(2) by simp
  have col: "?rc j =
     (case numeric_column P ?conv ?texts of
        Inl e \<Rightarrow> Inl e | Inr cs \<Rightarrow> Inr (LStr c, ?d, cs))"
    using read_numeric_column [OF hc, of P rows] by (simp only: j(2))
  have sel: "j \<in> set ?sel"
    using j numeric_dtype(3) [OF c] by (simp only: selected_iff) simp
  have ti: "?texts ! i = missing ?s" and tl: "i < length ?texts" using i by simp_all
  have part1: "\<exists>cs. map_of (columns T) (LStr c) = Some cs \<and> length cs = length rows \<and>
          (?s = '''' \<or> ?s \<in> set na_values \<longrightarrow> cs ! i = None)"
    if T: "load P (CSVLoader p) w = (Inr T, w')" for T w'
  proof -
    from load_csv_Inr [OF T on_disk rect] obtain cols where
      eq: "map ?rc ?sel = map Inr cols"
      and colT: "columns T = map (\<lambda>(l, d, cs). (l, cs)) cols"
      by blast
    from sel obtain k where k: "k < length ?sel" "?sel ! k = j"
      by (auto simp: in_set_conv_nth)
    from arg_cong [OF eq, of length] k(1) have kc: "k < length cols" by simp
    from arg_cong [OF eq, of "\<lambda>xs. xs ! k"] k kc
    have rc: "?rc j = Inr (cols ! k)"
      by simp
    with col obtain cs where s: "numeric_column P ?conv ?texts = Inr cs"
      and ck: "cols ! k = (LStr c, ?d, cs)"
      by (cases "numeric_column P ?conv ?texts") simp_all
    from numeric_column_Inr(1) [OF s] have len: "length cs = length rows" by simp
    have na: "cs ! i = None" if "?s = '''' \<or> ?s \<in> set na_values"
    proof -
      from that empty_is_na have "?s \<in> set na_values" by auto
      then have "?texts ! i = None" using ti by (simp add: missing_def)
      with numeric_column_Inr(2) [OF s tl] show ?thesis .
    qed
    have "columns T ! k = (LStr c, cs)" using ck kc by (simp add: colT)
    moreover have "k < length (columns T)" using kc by (simp add: colT)
    ultimately have "(LStr c, cs) \<in> set (columns T)"
      using nth_mem [of k "columns T"] by simp
    with loaded_labels_distinct [OF T on_disk rect]
    have "map_of (columns T) (LStr c) = Some cs" by simp
    with len na show ?thesis by blast
  qed
  have part2: "\<exists>T. load P (CSVLoader p) w = (Inr T, access p w)"
    if "set ?u \<subseteq> set header" "valid_file P header rows"
    using load_valid [OF on_disk that] by blast
  have part3: "\<exists>e. load P (CSVLoader p) w = (Inl e, access p w)"
    if bad: "?s \<notin> set na_values" "\<not> is_number P ?s"
  proof (cases "set ?u \<subseteq> set header")
    case False
    then have "\<not> list_all (\<lambda>c. c \<in> set header) ?u" by (auto simp: list_all_iff)
    with on_disk have "load P (CSVLoader p) w = (Inl ValueError, access p w)"
      by (simp add: read_csv_def)
    then show ?thesis by blast
  next
    case True
    have "\<exists>e. numeric_column P ?conv ?texts = Inl e"
    proof (cases "numeric_column P ?conv ?texts")
      case (Inl e)
      then show ?thesis by blast
    next
      case (Inr cs)
      from bad(1) ti have "?texts ! i = Some ?s" by (simp add: missing_def)
      from numeric_column_Inr(3) [OF Inr tl this] bad(2) show ?thesis by simp
    qed
    then obtain e where "numeric_column P ?conv ?texts = Inl e" by blast
    with col have "?rc j = Inl e" by simp
    with sel have "Inl e \<in> set (map ?rc ?sel)" by (simp add: image_iff) metis
    from sequence_Inl [OF this] obtain e' where "sequence (map ?rc ?sel) = Inl e'" by blast
    with read_csv_rectangular [OF on_disk rect True, of P datetime_cols dtypes]
    have "load P (CSVLoader p) w = (Inl e', access p w)" by simp
    then show ?thesis by blast
  qed
  from part1 part2 part3 show ?thesis by blast
qed

text \<open>
  Scenario A: three records with \<^verbatim>\<open>VIOFINE\<close> fields \<^verbatim>\<open>10.0\<close>, empty, \<^verbatim>\<open>20.0\<close> load as
  \<open>10.0\<close>, null, \<open>20.0\<close>.
\<close>

theorem load_numeric_cell_witness:
  "files example_world ''tickets.csv'' = Some (TextFile tickets_header tickets_records) \<and>
   rectangular tickets_header tickets_records \<and>
   ''VIOFINE'' \<in> {''X'', ''Y'', ''OBJECTID'', ''VIOFINE''} \<and>
   7 < length tickets_header \<and> tickets_header ! 7 = ''VIOFINE'' \<and>
   ''VIOFINE'' \<notin> set (take 7 tickets_header) \<and>
   1 < length tickets_records \<and>
   map (\<lambda>r. r ! 7) tickets_records = [''10.0'', '''', ''20.0''] \<and>
   list_all (\<lambda>c. c \<in> set tickets_header) (map fst dtypes @ datetime_cols) \<and>
   valid_file example_pandas tickets_header tickets_records \<and>
   (\<exists>T cs. load example_pandas (CSVLoader ''tickets.csv'') example_world =
              (Inr T, access ''tickets.csv'' example_world) \<and>
      map_of (columns T) (LStr ''VIOFINE'') = Some cs \<and> cs ! 1 = None \<and>
      cs = [Some (FloatV (Finite 10)), None, Some (FloatV (Finite 20))])"
proof -
  note a = tickets_on_disk
  have r: "rectangular tickets_header tickets_records" by code_simp
  have c: "''VIOFINE'' \<in> {''X'', ''Y'', ''OBJECTID'', ''VIOFINE''}" by simp
  have j: "7 < length tickets_header" "tickets_header ! 7 = ''VIOFINE''"
    "''VIOFINE'' \<notin> set (take 7 tickets_header)"
    by code_simp+
  have i: "1 < length tickets_records" by code_simp
  have f: "map (\<lambda>r. r ! 7) tickets_records = [''10.0'', '''', ''20.0'']"
    by code_simp
  have e: "tickets_records ! 1 ! 7 = ''''" by code_simp
  have b: "set (map fst dtypes @ datetime_cols) \<subseteq> set tickets_header"
    using tickets_present by (auto simp: list_all_iff)
  note v = tickets_valid
  have all: "(\<forall>T w'. load example_pandas (CSVLoader ''tickets.csv'') example_world = (Inr T, w') \<longrightarrow>
        (\<exists>cs. map_of (columns T) (LStr ''VIOFINE'') = Some cs \<and>
              length cs = length tickets_records \<and>
              (tickets_records ! 1 ! 7 = '''' \<or> tickets_records ! 1 ! 7 \<in> set na_values \<longrightarrow>
                 cs ! 1 = None))) \<and>
     (set (map fst dtypes @ datetime_cols) \<subseteq> set tickets_header \<and>
      valid_file example_pandas tickets_header tickets_records \<longrightarrow>
        (\<exists>T. load example_pandas (CSVLoader ''tickets.csv'') example_world =
                (Inr T, access ''tickets.csv'' example_world))) \<and>
     (tickets_records ! 1 ! 7 \<notin> set na_values \<and>
      \<not> is_number example_pandas (tickets_records ! 1 ! 7) \<longrightarrow>
        (\<exists>e. load example_pandas (CSVLoader ''tickets.csv'') example_world =
                (Inl e, access ''tickets.csv'' example_world)))"
    using a r c j i by (rule load_numeric_cell)
  with b v obtain T where
    T: "load example_pandas (CSVLoader ''tickets.csv'') example_world =
          (Inr T, access ''tickets.csv'' example_world)"
    by blast
  with all e obtain cs where
    cs: "map_of (columns T) (LStr ''VIOFINE'') = Some cs" "cs ! 1 = None"
    by blast
  from T have "columns T =
          [(LStr ''OBJECTID'', [Some (IntV 1), Some (IntV 2), Some (IntV 3)]),
           (LStr ''X'', [Some (FloatV (Finite (- 173 / 2))), None, Some (FloatV (Finite (- 173 / 2)))]),
           (LStr ''Y'', [Some (FloatV (Finite (391 / 10))), None, Some (FloatV (Finite (391 / 10)))]),
           (LStr ''ADDRESS'', [Some (StrV ''MAIN ST''), None, Some (StrV ''ELM ST'')]),
           (LStr ''LICSTATEPROV'', [Some (StrV ''IN''), Some (StrV ''IN''), Some (StrV ''OH'')]),
           (LStr ''VIODESCRIPTION'',
            [Some (StrV ''EXPIRED METER''), Some (StrV ''NO PERMIT''), Some (StrV ''EXPIRED METER'')]),
           (LStr ''VIOFINE'', [Some (FloatV (Finite 10)), None, Some (FloatV (Finite 20))]),
           (LStr ''VOIDSTATUS'', [Some (StrV ''N''), None, Some (StrV ''N'')]),
           (LStr ''ISSUEDATE'', [Some (TimestampV 18262), Some (TimestampV 18263), Some (TimestampV 18263)]),
           (LStr ''ISSUETIME'', [Some (TimestampV 510), None, Some (TimestampV 510)])]"
    by (simp only: tickets_loaded) auto
  with cs(1) have "cs = [Some (FloatV (Finite 10)), None, Some (FloatV (Finite 20))]"
    by simp
  with cs T
  have "\<exists>T cs. load example_pandas (CSVLoader ''tickets.csv'') example_world =
              (Inr T, access ''tickets.csv'' example_world) \<and>
      map_of (columns T) (LStr ''VIOFINE'') = Some cs \<and> cs ! 1 = None \<and>
      cs = [Some (FloatV (Finite 10)), None, Some (FloatV (Finite 20))]"
    by blast
  with a r c j i f tickets_present v show ?thesis by (intro conjI)
qed

text \<open>
  Claim C2 as stated has every non-numeric field stored as a null. A file whose
  \<^verbatim>\<open>VIOFINE\<close> field is \<^verbatim>\<open>abc\<close> does not load: the conversion raises \<^verbatim>\<open>ValueError\<close>.
\<close>

theorem load_non_numeric_counterexample:
  "files example_world ''bad_fine.csv'' = Some (TextFile tickets_header bad_fine_records) \<and>
   tickets_header ! 7 = ''VIOFINE'' \<and>
   bad_fine_records ! 0 ! 7 = ''abc'' \<and>
   \<not> is_number example_pandas ''abc'' \<and>
   load example_pandas (CSVLoader ''bad_fine.csv'') example_world =
     (Inl ValueError, access ''bad_fine.csv'' example_world) \<and>
   \<not> (\<exists>T w' cs. load example_pandas (CSVLoader ''bad_fine.csv'') example_world = (Inr T, w') \<and>
          map_of (columns T) (LStr ''VIOFINE'') = Some cs \<and> cs ! 0 = None)"
proof -
  have a: "files example_world ''bad_fine.csv'' = Some (TextFile tickets_header bad_fine_records)"
    by (simp add: example_world_def example_files_def)
  have b: "tickets_header ! 7 = ''VIOFINE''" by code_simp
  have c: "bad_fine_records ! 0 ! 7 = ''abc''" by code_simp
  have d: "\<not> is_number example_pandas ''abc''" by code_simp
  note e = bad_fine_loaded
  have f: "\<not> (\<exists>T w' cs. load example_pandas (CSVLoader ''bad_fine.csv'') example_world = (Inr T, w') \<and>
          map_of (columns T) (LStr ''VIOFINE'') = Some cs \<and> cs ! 0 = None)"
    by (simp del: load.simps add: e)
  from a b c d e f show ?thesis by (intro conjI)
qed

text \<open>
  Claim C5. When the header of the file lacks one of the columns \<^verbatim>\<open>usecols\<close> names,
  \<^verbatim>\<open>CSVLoader.load\<close> reads the file once, fails with the \<^verbatim>\<open>ValueError\<close> of the column check
  and returns no table, whatever the records are.
\<close>

theorem load_missing_column:
  assumes "files w p = Some (TextFile header rows)"
    and "c \<in> set (map fst dtypes @ datetime_cols)"
    and "c \<notin> set header"
  shows "load P (CSVLoader p) w = (Inl ValueError, access p w)"
proof -
  have "\<not> list_all (\<lambda>c. c \<in> set header) (map fst dtypes @ datetime_cols)"
    using assms(2,3) by (auto simp: list_all_iff)
  then show ?thesis using assms(1) by (simp add: read_csv_def)
qed

text \<open>Scenario B: a file without the column \<^verbatim>\<open>OBJECTID\<close>.\<close>

theorem load_missing_column_witness:
  "files example_world ''no_objectid.csv'' =
     Some (TextFile (tl tickets_header) (map tl tickets_records)) \<and>
   ''OBJECTID'' \<in> set (map fst dtypes @ datetime_cols) \<and>
   ''OBJECTID'' \<notin> set (tl tickets_header) \<and>
   load example_pandas (CSVLoader ''no_objectid.csv'') example_world =
     (Inl ValueError, access ''no_objectid.csv'' example_world)"
proof -
  have a: "files example_world ''no_objectid.csv'' =
     Some (TextFile (tl tickets_header) (map tl tickets_records))"
    by (simp add: example_world_def example_files_def)
  have b: "''OBJECTID'' \<in> set (map fst dtypes @ datetime_cols)"
    by (simp add: usecols_simp)
  have c: "''OBJECTID'' \<notin> set (tl tickets_header)"
    by (simp add: tickets_header_def)
  have d: "load example_pandas (CSVLoader ''no_objectid.csv'') example_world =
     (Inl ValueError, access ''no_objectid.csv'' example_world)"
    using a b c by (rule load_missing_column)
  from a b c d show ?thesis by (intro conjI)
qed

text \<open>
  Claim C6. For every readable Parquet file, \<^verbatim>\<open>ParquetLoader.load\<close> reads the file once and
  returns the table stored in it as it is: the same columns in the same order, the same
  dtypes, the same cells, the same row index and axis names. No column is filtered and no
  type is changed, whatever the conversions of \<^verbatim>\<open>read_csv\<close> are.
\<close>

theorem load_parquet:
  assumes "files w p = Some (ParquetFile T)"
  shows "\<exists>R. load P (ParquetLoader p) w = (Inr R, access p w) \<and> R = T \<and>
           map fst (columns R) = map fst (columns T) \<and> col_dtypes R = col_dtypes T \<and>
           columns R = columns T \<and> index R = index T"
  using assms by (simp add: read_parquet_def)

text \<open>Scenario C: the file with the schema \<^verbatim>\<open>{A: integer, B: text}\<close>.\<close>

theorem load_parquet_witness:
  "files example_world ''scenario_C.parquet'' = Some (ParquetFile scenario_C_table) \<and>
   (\<exists>R. load example_pandas (ParquetLoader ''scenario_C.parquet'') example_world =
           (Inr R, access ''scenario_C.parquet'' example_world) \<and>
        R = scenario_C_table \<and>
        map fst (columns R) = [LStr ''A'', LStr ''B''] \<and>
        col_dtypes R = [NumpyDtype ''int64'', ObjectDtype])"
proof -
  have a: "files example_world ''scenario_C.parquet'' = Some (ParquetFile scenario_C_table)"
    by (simp add: example_world_def example_files_def)
  from load_parquet [OF a, of example_pandas] obtain R where
    "load example_pandas (ParquetLoader ''scenario_C.parquet'') example_world =
           (Inr R, access ''scenario_C.parquet'' example_world)"
    "R = scenario_C_table"
    by blast
  moreover have "map fst (columns scenario_C_table) = [LStr ''A'', LStr ''B'']"
    "col_dtypes scenario_C_table = [NumpyDtype ''int64'', ObjectDtype]"
    by (simp_all add: scenario_C_table_def)
  ultimately have "\<exists>R. load example_pandas (ParquetLoader ''scenario_C.parquet'') example_world =
           (Inr R, access ''scenario_C.parquet'' example_world) \<and>
        R = scenario_C_table \<and>
        map fst (columns R) = [LStr ''A'', LStr ''B''] \<and>
        col_dtypes R = [NumpyDtype ''int64'', ObjectDtype]"
    by simp
  with a show ?thesis by (intro conjI)
qed

text \<open>
  Claim C7. For every loader \<open>L\<close>, of the two classes of the module or of any other
  subclass, running a \<^verbatim>\<open>LoadProcess\<close> built with \<open>L\<close> is one call of \<open>L\<close>'s \<^verbatim>\<open>load\<close>: it returns
  what that call returns, a table or an error, and leaves the world as that call leaves it.
  With either loader of the module one run reads the path exactly once, and a second run
  reads it again: nothing is retried and nothing is kept from an earlier run.
\<close>

theorem run_delegates:
  "run P \<lparr>data_loader = L\<rparr> w = load P L w \<and>
   run P \<lparr>data_loader = Subclass p load_method\<rparr> w = load_method p w \<and>
   accesses (snd (run P \<lparr>data_loader = CSVLoader p\<rparr> w)) = accesses w @ [p] \<and>
   accesses (snd (run P \<lparr>data_loader = ParquetLoader p\<rparr> w)) = accesses w @ [p] \<and>
   accesses (snd (run P \<lparr>data_loader = CSVLoader p\<rparr>
                      (snd (run P \<lparr>data_loader = CSVLoader p\<rparr> w)))) = accesses w @ [p, p] \<and>
   accesses (snd (run P \<lparr>data_loader = ParquetLoader p\<rparr>
                      (snd (run P \<lparr>data_loader = ParquetLoader p\<rparr> w)))) = accesses w @ [p, p]"
  by (simp add: run_def read_csv_def read_parquet_def access_def)

text \<open>
  A loader whose first call fails and whose second call would succeed: the run returns the
  failure of the one call it makes, and the loader has been called once.
\<close>

theorem run_delegates_witness:
  "run example_pandas \<lparr>data_loader = flaky_loader\<rparr> example_world =
     (Inl ValueError, access ''scenario_C.parquet'' example_world) \<and>
   load example_pandas flaky_loader (access ''scenario_C.parquet'' example_world) =
     (Inr scenario_C_table,
      access ''scenario_C.parquet'' (access ''scenario_C.parquet'' example_world)) \<and>
   run example_pandas \<lparr>data_loader = ParquetLoader ''scenario_C.parquet''\<rparr> example_world =
     (Inr scenario_C_table, access ''scenario_C.parquet'' example_world) \<and>
   accesses (snd (run example_pandas \<lparr>data_loader = CSVLoader ''tickets.csv''\<rparr> example_world)) =
     [''tickets.csv'']"
proof -
  have a: "load example_pandas flaky_loader example_world =
     (Inl ValueError, access ''scenario_C.parquet'' example_world)"
    by (simp add: flaky_loader_def flaky_load_def example_world_def)
  have b: "load example_pandas flaky_loader (access ''scenario_C.parquet'' example_world) =
     (Inr scenario_C_table,
      access ''scenario_C.parquet'' (access ''scenario_C.parquet'' example_world))"
    by (simp add: flaky_loader_def flaky_load_def example_world_def access_def read_parquet_def
        example_files_def)
  have c: "load example_pandas (ParquetLoader ''scenario_C.parquet'') example_world =
     (Inr scenario_C_table, access ''scenario_C.parquet'' example_world)"
    by (simp add: read_parquet_def example_world_def example_files_def)
  have d: "accesses (snd (run example_pandas \<lparr>data_loader = CSVLoader ''tickets.csv''\<rparr> example_world)) =
     accesses example_world @ [''tickets.csv'']"
    using run_delegates [of example_pandas "CSVLoader ''tickets.csv''" example_world
        "''tickets.csv''"] by blast
  have e: "accesses example_world = []" by (simp add: example_world_def)
  from a b c d e show ?thesis
    using run_delegates [of example_pandas flaky_loader example_world]
      run_delegates [of example_pandas "ParquetLoader ''scenario_C.parquet''" example_world]
    by simp
qed

end
